theory Spec2Isabelle
  imports Main
begin

section \<open>The ephemeral form protocol of the content script\<close>

text \<open>
  A shallow embedding of \<^verbatim>\<open>src/contentScript/ephemeralFormProtocol.ts\<close> and of
  \<^verbatim>\<open>src/blocks/transformers/ephemeralForm/formTransformer.ts\<close>.

  The module state (the \<^verbatim>\<open>forms\<close> map), the promises made by \<^verbatim>\<open>pDefer\<close> and the
  calls to outside collaborators are fields of one record, passed through every function.
  An \<^verbatim>\<open>async\<close> function that throws becomes a result \<open>Inl e\<close> (its promise rejects with
  \<open>e\<close>); the state is returned beside the result, since what was mutated before a throw
  stays mutated.
\<close>

subsection \<open>Data\<close>

type_synonym UUID = string

text \<open>Values of type \<^verbatim>\<open>unknown\<close> that cross the messenger: serialisable JSON.\<close>

datatype json =
    JNull
  | JBool bool
  | JNum int
  | JStr string
  | JArr "json list"
  | JObj "(string \<times> json) list"

text \<open>
  \<^verbatim>\<open>FormDefinition\<close>: the object literal that \<^verbatim>\<open>transform\<close> builds
  (\<^verbatim>\<open>{ schema, uiSchema, cancelable, submitCaption }\<close>).
\<close>

record FormDefinition =
  schema :: json
  uiSchema :: json
  cancelable :: bool
  submitCaption :: string

text \<open>
  The errors thrown: \<^verbatim>\<open>new Error(msg)\<close>, \<^verbatim>\<open>new CancelError(msg)\<close>, and the
  \<^verbatim>\<open>TypeError\<close> that JavaScript raises when a property of \<^verbatim>\<open>undefined\<close> is read.
\<close>

datatype error =
    Error string
  | CancelError string
  | TypeError

text \<open>The state of a promise; \<open>Pending\<close> is the only state that can change.\<close>

datatype settlement =
    Pending
  | Fulfilled json
  | Rejected error

text \<open>
  \<^verbatim>\<open>RegisteredForm\<close>. The \<^verbatim>\<open>DeferredPromise\<close> is a reference: the index of its promise
  in the store \<open>promises\<close>. (The field \<^verbatim>\<open>definition\<close> carries a prime, the name being
  a keyword.)
\<close>

record RegisteredForm =
  definition' :: FormDefinition
  registration :: nat

text \<open>A URL under construction: its base and its search parameters.\<close>

record URL =
  href :: string
  searchParams :: "(string \<times> string) list"

text \<open>Calls to collaborators outside the two files, in the order they are made.\<close>

datatype effect =
    ConsoleWarn string UUID
  | DeferredResolve nat json
  | DeferredReject nat error
  | ShowModal URL
  | ShowSidebarForm UUID UUID FormDefinition
  | HideSidebarForm UUID
  | ControllerAbortEvent

text \<open>The closures that \<^verbatim>\<open>transform\<close> registers as listeners, one type per event target.\<close>

datatype abort_listener = CancelFormListener UUID
  \<comment> \<open>\<^verbatim>\<open>() => { void cancelForm(frameNonce); }\<close> on the caller's \<^verbatim>\<open>abortSignal\<close>\<close>

datatype window_listener = AbortControllerListener
  \<comment> \<open>\<^verbatim>\<open>() => { controller.abort(); }\<close> for \<^verbatim>\<open>PANEL_HIDING_EVENT\<close>, registered with
      \<^verbatim>\<open>{ signal: controller.signal }\<close>\<close>

datatype controller_listener = HideAndCancelListener UUID
  \<comment> \<open>\<^verbatim>\<open>() => { hideSidebarForm(frameNonce); void cancelForm(frameNonce); }\<close> on
      \<^verbatim>\<open>controller.signal\<close>\<close>

record AbortSignal =
  aborted :: bool
  listeners :: "abort_listener list"

record AbortController =
  c_aborted :: bool
  c_listeners :: "controller_listener list"

text \<open>
  The world. \<open>expectContext\<close> stands for \<^verbatim>\<open>expectContext\<close> of
  \<^verbatim>\<open>@/utils/expectContext\<close>, which is not part of the two files: for each context name it
  either returns (\<open>None\<close>) or throws (\<open>Some e\<close>). \<open>getURL\<close> stands for
  \<^verbatim>\<open>browser.runtime.getURL\<close>. \<open>abortSignals\<close> are the signals owned by
  callers, addressed by index; \<open>controller\<close> is the \<^verbatim>\<open>AbortController\<close> of the one
  \<^verbatim>\<open>transform\<close> call that is followed, \<open>None\<close> until \<^verbatim>\<open>new AbortController()\<close> has run.
\<close>

record world =
  expectContext :: "string \<Rightarrow> error option"
  getURL :: "string \<Rightarrow> string"
  forms :: "UUID \<rightharpoonup> RegisteredForm"
  promises :: "settlement list"
  trace :: "effect list"
  abortSignals :: "AbortSignal list"
  controller :: "AbortController option"
  panelHidingListeners :: "window_listener list"

subsection \<open>Promises\<close>

definition emit :: "effect \<Rightarrow> world \<Rightarrow> world" where
  "emit e w = w\<lparr>trace := trace w @ [e]\<rparr>"

text \<open>\<^verbatim>\<open>pDefer()\<close>: a new pending promise; the handle is its index.\<close>

definition pDefer :: "world \<Rightarrow> nat \<times> world" where
  "pDefer w = (length (promises w), w\<lparr>promises := promises w @ [Pending]\<rparr>)"

text \<open>Settling a promise has an effect only while it is pending.\<close>

definition settle :: "nat \<Rightarrow> settlement \<Rightarrow> settlement list \<Rightarrow> settlement list" where
  "settle p r ps = (if p < length ps \<and> ps ! p = Pending then ps[p := r] else ps)"

definition deferred_resolve :: "nat \<Rightarrow> json \<Rightarrow> world \<Rightarrow> world" where
  "deferred_resolve p v w =
     (emit (DeferredResolve p v) w)\<lparr>promises := settle p (Fulfilled v) (promises w)\<rparr>"

definition deferred_reject :: "nat \<Rightarrow> error \<Rightarrow> world \<Rightarrow> world" where
  "deferred_reject p e w =
     (emit (DeferredReject p e) w)\<lparr>promises := settle p (Rejected e) (promises w)\<rparr>"

subsection \<open>ephemeralFormProtocol.ts\<close>

definition registerForm :: "UUID \<Rightarrow> FormDefinition \<Rightarrow> world \<Rightarrow> (error + nat) \<times> world" where
  "registerForm nonce d w =
     (case expectContext w ''contentScript'' of
        Some e \<Rightarrow> (Inl e, w)
      | None \<Rightarrow>
          (let (registration', w1) = pDefer w;
               w2 = (if forms w1 nonce \<noteq> None
                     then emit (ConsoleWarn ''A form was already registered with nonce %s'' nonce) w1
                     else w1);
               w3 = w2\<lparr>forms := (forms w2)(nonce \<mapsto>
                        \<lparr>definition' = d, registration = registration'\<rparr>)\<rparr>
           in (Inr registration', w3)))"

definition unregisterForm :: "UUID \<Rightarrow> world \<Rightarrow> (error + unit) \<times> world" where
  "unregisterForm formNonce w =
     (case expectContext w ''contentScript'' of
        Some e \<Rightarrow> (Inl e, w)
      | None \<Rightarrow> (Inr (), w\<lparr>forms := (forms w)(formNonce := None)\<rparr>))"

definition getFormDefinition :: "UUID \<Rightarrow> world \<Rightarrow> (error + FormDefinition) \<times> world" where
  "getFormDefinition nonce w =
     (case expectContext w ''contentScript'' of
        Some e \<Rightarrow> (Inl e, w)
      | None \<Rightarrow>
          (case forms w nonce of
             None \<Rightarrow> (Inl TypeError, w)
           | Some form \<Rightarrow> (Inr (definition' form), w)))"

definition resolveForm :: "UUID \<Rightarrow> json \<Rightarrow> world \<Rightarrow> (error + unit) \<times> world" where
  "resolveForm formNonce values w =
     (case expectContext w ''contentScript'' of
        Some e \<Rightarrow> (Inl e, w)
      | None \<Rightarrow>
          (case forms w formNonce of
             None \<Rightarrow> (Inl (Error (''Form not registered: '' @ formNonce)), w)
           | Some form \<Rightarrow>
               unregisterForm formNonce (deferred_resolve (registration form) values w)))"

fun cancelForm_loop :: "UUID list \<Rightarrow> world \<Rightarrow> (error + unit) \<times> world" where
  "cancelForm_loop [] w = (Inr (), w)"
| "cancelForm_loop (formNonce # rest) w =
     (let w1 = (case forms w formNonce of
                  None \<Rightarrow> w
                | Some form \<Rightarrow>
                    deferred_reject (registration form)
                      (CancelError ''User cancelled the action'') w)
      in case unregisterForm formNonce w1 of
           (Inl e, w2) \<Rightarrow> (Inl e, w2)
         | (Inr _, w2) \<Rightarrow> cancelForm_loop rest w2)"

definition cancelForm :: "UUID list \<Rightarrow> world \<Rightarrow> (error + unit) \<times> world" where
  "cancelForm formNonces w =
     (case expectContext w ''contentScript'' of
        Some e \<Rightarrow> (Inl e, w)
      | None \<Rightarrow> cancelForm_loop formNonces w)"

text \<open>
  The module as loaded in the content script: no form, no promise, and an
  \<open>expectContext\<close> that accepts \<^verbatim>\<open>"contentScript"\<close> only.
\<close>

definition contentScript :: world where
  "contentScript =
     \<lparr>expectContext = (\<lambda>c. if c = ''contentScript'' then None
                            else Some (Error ''wrong context'')),
      getURL = (\<lambda>path. ''chrome-extension://pixiebrix/'' @ path),
      forms = Map.empty, promises = [], trace = [], abortSignals = [],
      controller = None, panelHidingListeners = []\<rparr>"

definition inContentScript :: "world \<Rightarrow> bool" where
  "inContentScript w \<longleftrightarrow> expectContext w ''contentScript'' = None"

subsection \<open>Calls that arrive through the messenger\<close>

text \<open>
  The four operations are called from other contexts, in any order. The caller gets the
  result; the module keeps the state.
\<close>

datatype op =
    RegisterForm UUID FormDefinition
  | GetFormDefinition UUID
  | ResolveForm UUID json
  | CancelForm "UUID list"

fun apply_op :: "op \<Rightarrow> world \<Rightarrow> world" where
  "apply_op (RegisterForm nonce d) w = snd (registerForm nonce d w)"
| "apply_op (GetFormDefinition nonce) w = snd (getFormDefinition nonce w)"
| "apply_op (ResolveForm nonce values) w = snd (resolveForm nonce values w)"
| "apply_op (CancelForm nonces) w = snd (cancelForm nonces w)"

definition run_ops :: "op list \<Rightarrow> world \<Rightarrow> world" where
  "run_ops ops w = fold apply_op ops w"

subsection \<open>formTransformer.ts\<close>

text \<open>\<^verbatim>\<open>URLSearchParams.set\<close>: replace the first entry of the name and drop the others, or append.\<close>

fun searchParams_set :: "string \<Rightarrow> string \<Rightarrow> (string \<times> string) list \<Rightarrow> (string \<times> string) list" where
  "searchParams_set k v [] = [(k, v)]"
| "searchParams_set k v ((k', v') # ps) =
     (if k' = k then (k, v) # filter (\<lambda>(a, _). a \<noteq> k) ps
      else (k', v') # searchParams_set k v ps)"

text \<open>
  \<^verbatim>\<open>createFrameSource\<close>, after \<^verbatim>\<open>getThisFrame()\<close> has answered: \<open>target\<close> is
  \<^verbatim>\<open>JSON.stringify(target)\<close> and \<open>base\<close> is \<^verbatim>\<open>browser.runtime.getURL("ephemeralForm.html")\<close>.
\<close>

definition createFrameSource :: "string \<Rightarrow> string \<Rightarrow> string \<Rightarrow> string \<Rightarrow> URL" where
  "createFrameSource nonce mode target base =
     (let frameSource = \<lparr>href = base, searchParams = []\<rparr>;
          frameSource = frameSource\<lparr>searchParams := searchParams_set ''nonce'' nonce (searchParams frameSource)\<rparr>;
          frameSource = frameSource\<lparr>searchParams := searchParams_set ''opener'' target (searchParams frameSource)\<rparr>;
          frameSource = frameSource\<lparr>searchParams := searchParams_set ''mode'' mode (searchParams frameSource)\<rparr>
      in frameSource)"

text \<open>
  \<^verbatim>\<open>inputSchema\<close>, the JSON Schema that the brick declares for its arguments.
\<close>

definition inputSchema :: json where
  "inputSchema =
     JObj [
       (''type'', JStr ''object''),
       (''properties'', JObj [
          (''schema'', JObj [
             (''type'', JStr ''object''),
             (''description'', JStr ''The JSON Schema for the form''),
             (''additionalProperties'', JBool True)]),
          (''uiSchema'', JObj [
             (''type'', JStr ''object''),
             (''description'', JStr ''The react-jsonschema-form uiSchema for the form''),
             (''additionalProperties'', JBool True)]),
          (''cancelable'', JObj [
             (''type'', JStr ''boolean''),
             (''description'', JStr ''Whether or not the user can cancel the form (default=true)''),
             (''default'', JBool True)]),
          (''submitCaption'', JObj [
             (''type'', JStr ''string''),
             (''description'', JStr ''The submit button caption (default='Submit')''),
             (''default'', JStr ''Submit'')]),
          (''location'', JObj [
             (''type'', JStr ''string''),
             (''enum'', JArr [JStr ''modal'', JStr ''sidebar'']),
             (''description'', JStr ''The location of the form (default='modal')''),
             (''default'', JStr ''modal'')])]),
       (''required'', JArr [JStr ''schema''])]"

text \<open>Reading a property of a JSON object.\<close>

fun member :: "string \<Rightarrow> json \<Rightarrow> json option" where
  "member k (JObj kvs) = map_of kvs k"
| "member k _ = None"

definition property :: "string \<Rightarrow> string \<Rightarrow> json option" where
  "property name key =
     (case member ''properties'' inputSchema of
        None \<Rightarrow> None
      | Some ps \<Rightarrow> (case member name ps of None \<Rightarrow> None | Some p \<Rightarrow> member key p))"

text \<open>
  The arguments of \<^verbatim>\<open>transform\<close>. \<open>None\<close> is an omitted (\<^verbatim>\<open>undefined\<close>) property, the
  case in which a destructuring default applies. \<^verbatim>\<open>schema\<close> has no default and is
  required by \<^verbatim>\<open>inputSchema\<close>. The field names carry the suffix \<open>_arg\<close>, the plain names
  being those of \<open>FormDefinition\<close>.
\<close>

record BlockArg =
  schema_arg :: json
  uiSchema_arg :: "json option"
  cancelable_arg :: "bool option"
  submitCaption_arg :: "string option"
  location_arg :: "string option"

text \<open>
  \<^verbatim>\<open>BlockOptions\<close>: \<open>extensionId\<close> is \<^verbatim>\<open>logger.context.extensionId\<close>; \<open>abortSignal\<close> is
  a reference into \<open>abortSignals\<close>, or \<open>None\<close> when the caller passes no signal.
\<close>

record BlockOptions =
  extensionId :: UUID
  abortSignal :: "nat option"

text \<open>
  Where a call of \<^verbatim>\<open>transform\<close> stands: suspended at one of its three \<^verbatim>\<open>await\<close>s with
  the locals it still needs, or finished.
\<close>

datatype frame =
    AwaitCreateFrameSource BlockArg BlockOptions UUID
  | AwaitEnsureSidebar BlockOptions UUID FormDefinition
  | AwaitRegisterForm nat
  | Returned json
  | Thrown error

text \<open>\<^verbatim>\<open>controller.abort()\<close>: the first call marks the signal, removes the listeners that
  were registered with \<^verbatim>\<open>{ signal: controller.signal }\<close> and dispatches \<^verbatim>\<open>abort\<close>;
  later calls do nothing.\<close>

fun run_controller_listener :: "controller_listener \<Rightarrow> world \<Rightarrow> world" where
  "run_controller_listener (HideAndCancelListener frameNonce) w =
     snd (cancelForm [frameNonce] (emit (HideSidebarForm frameNonce) w))"

definition controller_abort :: "world \<Rightarrow> world" where
  "controller_abort w =
     (case controller w of
        None \<Rightarrow> w
      | Some c \<Rightarrow>
          if c_aborted c then w
          else fold run_controller_listener (c_listeners c)
                 (emit ControllerAbortEvent
                    (w\<lparr>controller := Some (c\<lparr>c_aborted := True\<rparr>),
                       panelHidingListeners := []\<rparr>)))"

fun run_window_listener :: "window_listener \<Rightarrow> world \<Rightarrow> world" where
  "run_window_listener AbortControllerListener w = controller_abort w"

text \<open>\<^verbatim>\<open>PANEL_HIDING_EVENT\<close> is dispatched on \<^verbatim>\<open>window\<close>.\<close>

definition panel_hiding :: "world \<Rightarrow> world" where
  "panel_hiding w = fold run_window_listener (panelHidingListeners w) w"

fun run_abort_listener :: "abort_listener \<Rightarrow> world \<Rightarrow> world" where
  "run_abort_listener (CancelFormListener frameNonce) w = snd (cancelForm [frameNonce] w)"

text \<open>A caller aborts its signal: \<^verbatim>\<open>abort\<close> is dispatched once, to the listeners present.\<close>

definition signal_abort :: "nat \<Rightarrow> world \<Rightarrow> world" where
  "signal_abort s w =
     (if s < length (abortSignals w) \<and> \<not> aborted (abortSignals w ! s)
      then fold run_abort_listener (listeners (abortSignals w ! s))
             (w\<lparr>abortSignals := (abortSignals w)[s := (abortSignals w ! s)\<lparr>aborted := True\<rparr>]\<rparr>)
      else w)"

text \<open>\<^verbatim>\<open>abortSignal?.addEventListener("abort", ...)\<close>\<close>

definition addAbortListener :: "nat option \<Rightarrow> abort_listener \<Rightarrow> world \<Rightarrow> world" where
  "addAbortListener ref l w =
     (case ref of
        None \<Rightarrow> w
      | Some s \<Rightarrow>
          if s < length (abortSignals w)
          then w\<lparr>abortSignals := (abortSignals w)
                   [s := (abortSignals w ! s)\<lparr>listeners := listeners (abortSignals w ! s) @ [l]\<rparr>]\<rparr>
          else w)"

text \<open>\<^verbatim>\<open>window.addEventListener(PANEL_HIDING_EVENT, ..., { signal: controller.signal })\<close>:
  nothing is added when the signal is already aborted.\<close>

definition addPanelHidingListener :: "window_listener \<Rightarrow> world \<Rightarrow> world" where
  "addPanelHidingListener l w =
     (case controller w of
        None \<Rightarrow> w
      | Some c \<Rightarrow>
          if c_aborted c then w
          else w\<lparr>panelHidingListeners := panelHidingListeners w @ [l]\<rparr>)"

text \<open>\<^verbatim>\<open>controller.signal.addEventListener("abort", ...)\<close>\<close>

definition addControllerListener :: "controller_listener \<Rightarrow> world \<Rightarrow> world" where
  "addControllerListener l w =
     (case controller w of
        None \<Rightarrow> w
      | Some c \<Rightarrow> w\<lparr>controller := Some (c\<lparr>c_listeners := c_listeners c @ [l]\<rparr>)\<rparr>)"

text \<open>
  The \<^verbatim>\<open>try\<close> block up to its \<^verbatim>\<open>await\<close>: \<^verbatim>\<open>registerForm\<close> runs to its end at once (it
  has no \<^verbatim>\<open>await\<close>) and hands back a promise, rejected already if it threw.
\<close>

definition awaitRegisterForm :: "UUID \<Rightarrow> FormDefinition \<Rightarrow> world \<Rightarrow> frame \<times> world" where
  "awaitRegisterForm frameNonce formDefinition w =
     (case registerForm frameNonce formDefinition w of
        (Inr p, w1) \<Rightarrow> (AwaitRegisterForm p, w1)
      | (Inl e, w1) \<Rightarrow>
          (AwaitRegisterForm (length (promises w1)),
           w1\<lparr>promises := promises w1 @ [Rejected e]\<rparr>))"

text \<open>
  \<^verbatim>\<open>transform\<close> from its entry to \<^verbatim>\<open>await createFrameSource(...)\<close>; \<open>frameNonce\<close> is the
  value of \<^verbatim>\<open>uuidv4()\<close>.
\<close>

definition transform :: "BlockArg \<Rightarrow> BlockOptions \<Rightarrow> UUID \<Rightarrow> world \<Rightarrow> frame \<times> world" where
  "transform arg opts frameNonce w =
     (case expectContext w ''contentScript'' of
        Some e \<Rightarrow> (Thrown e, w)
      | None \<Rightarrow> (AwaitCreateFrameSource arg opts frameNonce, w))"

text \<open>From the answer of \<^verbatim>\<open>getThisFrame()\<close> to the next \<^verbatim>\<open>await\<close>.\<close>

definition afterCreateFrameSource ::
  "BlockArg \<Rightarrow> BlockOptions \<Rightarrow> UUID \<Rightarrow> string \<Rightarrow> world \<Rightarrow> frame \<times> world" where
  "afterCreateFrameSource arg opts frameNonce target w =
     (let location = (case location_arg arg of None \<Rightarrow> ''modal'' | Some l \<Rightarrow> l);
          frameSource = createFrameSource frameNonce location target
                          (getURL w ''ephemeralForm.html'');
          formDefinition =
            \<lparr>schema = schema_arg arg,
             uiSchema = (case uiSchema_arg arg of None \<Rightarrow> JObj [] | Some u \<Rightarrow> u),
             cancelable = (case cancelable_arg arg of None \<Rightarrow> True | Some c \<Rightarrow> c),
             submitCaption = (case submitCaption_arg arg of None \<Rightarrow> ''Submit'' | Some c \<Rightarrow> c)\<rparr>;
          w1 = addAbortListener (abortSignal opts) (CancelFormListener frameNonce) w;
          w2 = w1\<lparr>controller := Some \<lparr>c_aborted = False, c_listeners = []\<rparr>\<rparr>
      in if location = ''sidebar''
         then (AwaitEnsureSidebar opts frameNonce formDefinition, w2)
         else awaitRegisterForm frameNonce formDefinition (emit (ShowModal frameSource) w2))"

text \<open>From the answer of \<^verbatim>\<open>ensureSidebar()\<close> to \<^verbatim>\<open>await registerForm(...)\<close>.\<close>

definition afterEnsureSidebar :: "BlockOptions \<Rightarrow> UUID \<Rightarrow> FormDefinition \<Rightarrow> world \<Rightarrow> frame \<times> world" where
  "afterEnsureSidebar opts frameNonce formDefinition w =
     (let w1 = emit (ShowSidebarForm (extensionId opts) frameNonce formDefinition) w;
          w2 = addPanelHidingListener AbortControllerListener w1;
          w3 = addControllerListener (HideAndCancelListener frameNonce) w2
      in awaitRegisterForm frameNonce formDefinition w3)"

text \<open>The promise of \<^verbatim>\<open>registerForm\<close> has settled: \<^verbatim>\<open>finally { controller.abort() }\<close>,
  then the value is returned or the error thrown. While it is pending nothing runs.\<close>

definition afterRegisterForm :: "nat \<Rightarrow> world \<Rightarrow> frame \<times> world" where
  "afterRegisterForm p w =
     (if p < length (promises w)
      then (case promises w ! p of
              Pending \<Rightarrow> (AwaitRegisterForm p, w)
            | Fulfilled v \<Rightarrow> (Returned v, controller_abort w)
            | Rejected e \<Rightarrow> (Thrown e, controller_abort w))
      else (AwaitRegisterForm p, w))"

text \<open>
  What can happen while the call is in flight: one of its awaited promises settles and
  the call runs on to its next \<^verbatim>\<open>await\<close>; a caller's signal aborts; the sidebar announces
  that it hides; an operation of the protocol is called through the messenger.
\<close>

datatype event =
    GotThisFrame "error + string"
  | SidebarEnsured "error + unit"
  | Continue
  | CallerAbort nat
  | PanelHiding
  | Call op

fun step :: "event \<Rightarrow> frame \<times> world \<Rightarrow> frame \<times> world" where
  "step (GotThisFrame r) (AwaitCreateFrameSource arg opts frameNonce, w) =
     (case r of
        Inl e \<Rightarrow> (Thrown e, w)
      | Inr target \<Rightarrow> afterCreateFrameSource arg opts frameNonce target w)"
| "step (SidebarEnsured r) (AwaitEnsureSidebar opts frameNonce formDefinition, w) =
     (case r of
        Inl e \<Rightarrow> (Thrown e, w)
      | Inr _ \<Rightarrow> afterEnsureSidebar opts frameNonce formDefinition w)"
| "step Continue (AwaitRegisterForm p, w) = afterRegisterForm p w"
| "step (CallerAbort s) (f, w) = (f, signal_abort s w)"
| "step PanelHiding (f, w) = (f, panel_hiding w)"
| "step (Call c) (f, w) = (f, apply_op c w)"
| "step _ (f, w) = (f, w)"

definition run :: "event list \<Rightarrow> frame \<times> world \<Rightarrow> frame \<times> world" where
  "run es cfg = fold step es cfg"

subsection \<open>Invariants and observations\<close>

text \<open>
  Every registered handle is an allocated, pending promise, and no two tokens share one.
\<close>

definition store_ok :: "world \<Rightarrow> bool" where
  "store_ok w \<longleftrightarrow>
     (\<forall>t f. forms w t = Some f \<longrightarrow>
        registration f < length (promises w) \<and> promises w ! registration f = Pending) \<and>
     (\<forall>t t' f f'. forms w t = Some f \<longrightarrow> forms w t' = Some f' \<longrightarrow>
        registration f = registration f' \<longrightarrow> t = t')"

text \<open>How often \<^verbatim>\<open>resolve\<close> or \<^verbatim>\<open>reject\<close> was called on the promise \<open>p\<close>.\<close>

fun settles :: "nat \<Rightarrow> effect \<Rightarrow> bool" where
  "settles p (DeferredResolve q _) = (q = p)"
| "settles p (DeferredReject q _) = (q = p)"
| "settles p _ = False"

definition settle_calls :: "nat \<Rightarrow> effect list \<Rightarrow> nat" where
  "settle_calls p tr = length (filter (settles p) tr)"

text \<open>A promise that was never settled by a call is pending, and none was settled twice.\<close>

definition calls_ok :: "world \<Rightarrow> bool" where
  "calls_ok w \<longleftrightarrow>
     (\<forall>p. settle_calls p (trace w) \<le> 1 \<and>
          (settle_calls p (trace w) = 1 \<longrightarrow>
             p < length (promises w) \<and> promises w ! p \<noteq> Pending))"

text \<open>The store and the calls are both in order.\<close>

definition ok :: "world \<Rightarrow> bool" where
  "ok w \<longleftrightarrow> store_ok w \<and> calls_ok w"

text \<open>One turn of the loop of \<^verbatim>\<open>cancelForm\<close>, as it runs in the content script.\<close>

definition cancel_one :: "UUID \<Rightarrow> world \<Rightarrow> world" where
  "cancel_one t w =
     (case forms w t of
        None \<Rightarrow> w
      | Some form \<Rightarrow>
          (deferred_reject (registration form) (CancelError ''User cancelled the action'') w)
            \<lparr>forms := (forms w)(t := None)\<rparr>)"

text \<open>The promise \<open>p\<close> belongs to the entry of one of the tokens \<open>ts\<close>.\<close>

definition targets :: "world \<Rightarrow> UUID list \<Rightarrow> nat \<Rightarrow> bool" where
  "targets w ts p \<longleftrightarrow> (\<exists>t\<in>set ts. \<exists>f. forms w t = Some f \<and> registration f = p)"

text \<open>The promise \<open>p\<close> exists and has settled as \<open>s\<close>.\<close>

definition settled_at :: "nat \<Rightarrow> settlement \<Rightarrow> world \<Rightarrow> bool" where
  "settled_at p s w \<longleftrightarrow> p < length (promises w) \<and> promises w ! p = s \<and> s \<noteq> Pending"

text \<open>The promise \<open>p\<close> is pending and no entry of the store holds it.\<close>

definition orphan :: "nat \<Rightarrow> world \<Rightarrow> bool" where
  "orphan p w \<longleftrightarrow>
     p < length (promises w) \<and> promises w ! p = Pending \<and>
     (\<forall>t f. forms w t = Some f \<longrightarrow> registration f \<noteq> p)"

text \<open>The token that a listener on a caller's signal cancels.\<close>

fun listener_nonce :: "abort_listener \<Rightarrow> UUID" where
  "listener_nonce (CancelFormListener frameNonce) = frameNonce"

text \<open>Surfaces shown, teardown signals delivered, sidebar forms hidden.\<close>

fun is_creation :: "effect \<Rightarrow> bool" where
  "is_creation (ShowModal _) = True"
| "is_creation (ShowSidebarForm _ _ _) = True"
| "is_creation _ = False"

definition creations :: "effect list \<Rightarrow> nat" where
  "creations tr = length (filter is_creation tr)"

definition teardowns :: "effect list \<Rightarrow> nat" where
  "teardowns tr = length (filter (\<lambda>e. e = ControllerAbortEvent) tr)"

fun is_hide :: "effect \<Rightarrow> bool" where
  "is_hide (HideSidebarForm _) = True"
| "is_hide _ = False"

definition hides :: "effect list \<Rightarrow> nat" where
  "hides tr = length (filter is_hide tr)"

text \<open>Forms shown in the sidebar.\<close>

fun is_sidebar_show :: "effect \<Rightarrow> bool" where
  "is_sidebar_show (ShowSidebarForm _ _ _) = True"
| "is_sidebar_show _ = False"

definition sidebar_shows :: "effect list \<Rightarrow> nat" where
  "sidebar_shows tr = length (filter is_sidebar_show tr)"

text \<open>
  What a world shows of the rendering surface: the controller, the listeners for the
  hiding of the panel, and the numbers of surfaces shown, teardown signals, forms hidden
  and forms shown in the sidebar.
\<close>

definition surface ::
  "world \<Rightarrow> AbortController option \<times> window_listener list \<times> nat \<times> nat \<times> nat \<times> nat" where
  "surface w =
     (controller w, panelHidingListeners w, creations (trace w), teardowns (trace w),
      hides (trace w), sidebar_shows (trace w))"

text \<open>
  The surface of a call, counted from the numbers \<open>C\<close>, \<open>T\<close>, \<open>H\<close>, \<open>S\<close> at its start:
  nothing shown yet and nobody able to abort the controller; or one surface shown, with
  a teardown signal and the hiding of the sidebar form exactly when the controller has
  aborted.
\<close>

definition unstarted ::
  "nat \<Rightarrow> nat \<Rightarrow> nat \<Rightarrow> nat \<Rightarrow>
   AbortController option \<times> window_listener list \<times> nat \<times> nat \<times> nat \<times> nat \<Rightarrow> bool" where
  "unstarted C T H S \<sigma> \<longleftrightarrow>
     \<sigma> = (None, [], C, T, H, S) \<or>
     \<sigma> = (Some \<lparr>c_aborted = False, c_listeners = []\<rparr>, [], C, T, H, S)"

definition shown ::
  "nat \<Rightarrow> nat \<Rightarrow> nat \<Rightarrow> nat \<Rightarrow>
   AbortController option \<times> window_listener list \<times> nat \<times> nat \<times> nat \<times> nat \<Rightarrow> bool" where
  "shown C T H S \<sigma> \<longleftrightarrow>
     (\<exists>c pl. \<sigma> = (Some c, pl, C + 1,
                    T + (if c_aborted c then 1 else 0),
                    H + (if c_aborted c then length (c_listeners c) else 0),
                    S + length (c_listeners c)) \<and>
             length (c_listeners c) \<le> 1)"

definition torn ::
  "nat \<Rightarrow> nat \<Rightarrow> nat \<Rightarrow> nat \<Rightarrow>
   AbortController option \<times> window_listener list \<times> nat \<times> nat \<times> nat \<times> nat \<Rightarrow> bool" where
  "torn C T H S \<sigma> \<longleftrightarrow>
     (\<exists>c pl. \<sigma> = (Some c, pl, C + 1, T + 1, H + length (c_listeners c),
                    S + length (c_listeners c)) \<and>
             c_aborted c \<and> length (c_listeners c) \<le> 1)"

text \<open>What holds of the surface at each point of the call.\<close>

fun surface_inv :: "nat \<Rightarrow> nat \<Rightarrow> nat \<Rightarrow> nat \<Rightarrow> frame \<times> world \<Rightarrow> bool" where
  "surface_inv C T H S (AwaitCreateFrameSource _ _ _, w) \<longleftrightarrow>
     surface w = (None, [], C, T, H, S)"
| "surface_inv C T H S (AwaitEnsureSidebar _ _ _, w) \<longleftrightarrow>
     surface w = (Some \<lparr>c_aborted = False, c_listeners = []\<rparr>, [], C, T, H, S)"
| "surface_inv C T H S (AwaitRegisterForm _, w) \<longleftrightarrow> shown C T H S (surface w)"
| "surface_inv C T H S (Returned _, w) \<longleftrightarrow> torn C T H S (surface w)"
| "surface_inv C T H S (Thrown _, w) \<longleftrightarrow>
     torn C T H S (surface w) \<or> unstarted C T H S (surface w)"

subsection \<open>Concrete worlds\<close>

text \<open>A form definition, and the content script after one form was registered as \<open>a\<close>.\<close>

definition demoForm :: FormDefinition where
  "demoForm =
     \<lparr>schema = JObj [(''type'', JStr ''object'')], uiSchema = JObj [],
      cancelable = True, submitCaption = ''Submit''\<rparr>"

definition oneForm :: world where
  "oneForm = snd (registerForm ''a'' demoForm contentScript)"

text \<open>Two forms registered, \<open>a\<close> and \<open>c\<close>; and \<open>oneForm\<close> after \<open>a\<close> was resolved.\<close>

definition twoForms :: world where
  "twoForms = snd (registerForm ''c'' demoForm oneForm)"

definition resolvedForm :: world where
  "resolvedForm = snd (resolveForm ''a'' (JBool True) oneForm)"

text \<open>
  The content script with one caller's signal, not aborted; arguments that ask for the
  modal, for the sidebar, and that omit every option; options that pass the signal.
\<close>

definition callerWorld :: world where
  "callerWorld = contentScript\<lparr>abortSignals := [\<lparr>aborted = False, listeners = []\<rparr>]\<rparr>"

definition modalArg :: BlockArg where
  "modalArg =
     \<lparr>schema_arg = JObj [(''type'', JStr ''object'')], uiSchema_arg = None,
      cancelable_arg = None, submitCaption_arg = None, location_arg = Some ''modal''\<rparr>"

definition sidebarArg :: BlockArg where
  "sidebarArg = modalArg\<lparr>location_arg := Some ''sidebar''\<rparr>"

definition callerOptions :: BlockOptions where
  "callerOptions = \<lparr>extensionId = ''extension'', abortSignal = Some 0\<rparr>"

definition omittedArg :: BlockArg where
  "omittedArg =
     \<lparr>schema_arg = JObj [(''type'', JStr ''object'')], uiSchema_arg = None,
      cancelable_arg = None, submitCaption_arg = None, location_arg = None\<rparr>"

text \<open>
  Four runs of a call. \<open>earlyAbort\<close>: the modal is asked for and the caller aborts right
  after the call, while \<^verbatim>\<open>createFrameSource\<close> is awaited. \<open>lostAbort\<close>: the sidebar is
  asked for and the caller aborts while \<^verbatim>\<open>ensureSidebar()\<close> is awaited. \<open>resolvedPath\<close>:
  the modal is shown and the form is submitted. \<open>abortPath\<close>: the modal is shown and the
  caller aborts.
\<close>

definition earlyAbort :: "frame \<times> world" where
  "earlyAbort =
     run [CallerAbort 0, GotThisFrame (Inr ''{}''), Continue]
       (transform modalArg callerOptions ''n'' callerWorld)"

definition lostAbort :: "frame \<times> world" where
  "lostAbort =
     run [GotThisFrame (Inr ''{}''), CallerAbort 0, SidebarEnsured (Inr ()), Continue]
       (transform sidebarArg callerOptions ''n'' callerWorld)"

definition resolvedPath :: "frame \<times> world" where
  "resolvedPath =
     run [GotThisFrame (Inr ''{}''), Call (ResolveForm ''n'' JNull), Continue]
       (transform modalArg callerOptions ''n'' callerWorld)"

definition abortPath :: "frame \<times> world" where
  "abortPath =
     run [GotThisFrame (Inr ''{}''), CallerAbort 0, Continue]
       (transform modalArg callerOptions ''n'' callerWorld)"

section \<open>Properties\<close>

subsection \<open>Facts about the operations\<close>

lemma inCS_D: "inContentScript w \<Longrightarrow> expectContext w ''contentScript'' = None"
  by (simp add: inContentScript_def)

lemma expectContext_deferred_resolve [simp]:
  "expectContext (deferred_resolve p v w) = expectContext w"
  by (simp add: deferred_resolve_def emit_def)

lemma expectContext_deferred_reject [simp]:
  "expectContext (deferred_reject p e w) = expectContext w"
  by (simp add: deferred_reject_def emit_def)

lemma forms_deferred_resolve [simp]: "forms (deferred_resolve p v w) = forms w"
  by (simp add: deferred_resolve_def emit_def)

lemma forms_deferred_reject [simp]: "forms (deferred_reject p e w) = forms w"
  by (simp add: deferred_reject_def emit_def)

lemma unregisterForm_inCS:
  "expectContext w ''contentScript'' = None \<Longrightarrow>
   unregisterForm t w = (Inr (), w\<lparr>forms := (forms w)(t := None)\<rparr>)"
  by (simp add: unregisterForm_def)

lemma forms_delete_absent: "forms w t = None \<Longrightarrow> w\<lparr>forms := (forms w)(t := None)\<rparr> = w"
  by (simp add: fun_upd_idem)

lemma inCS_cancel_one [simp]: "inContentScript (cancel_one t w) = inContentScript w"
  by (simp add: cancel_one_def inContentScript_def split: option.splits)

lemma cancelForm_loop_Cons:
  "inContentScript w \<Longrightarrow> cancelForm_loop (t # ts) w = cancelForm_loop ts (cancel_one t w)"
  by (simp add: cancel_one_def unregisterForm_inCS forms_delete_absent inCS_D
      split: option.splits)

lemma cancelForm_loop_fold:
  "inContentScript w \<Longrightarrow> cancelForm_loop ts w = (Inr (), fold cancel_one ts w)"
proof (induction ts arbitrary: w)
  case Nil
  show ?case by simp
next
  case (Cons t ts)
  then show ?case by (simp add: cancelForm_loop_Cons del: cancelForm_loop.simps)
qed

lemma cancelForm_fold:
  "inContentScript w \<Longrightarrow> cancelForm ts w = (Inr (), fold cancel_one ts w)"
  by (simp add: cancelForm_def cancelForm_loop_fold inCS_D)

lemma resolveForm_inCS:
  "inContentScript w \<Longrightarrow>
   resolveForm t v w =
     (case forms w t of
        None \<Rightarrow> (Inl (Error (''Form not registered: '' @ t)), w)
      | Some form \<Rightarrow>
          (Inr (), (deferred_resolve (registration form) v w)\<lparr>forms := (forms w)(t := None)\<rparr>))"
  by (simp add: resolveForm_def unregisterForm_inCS inCS_D split: option.splits)

lemma promises_deferred_resolve [simp]:
  "promises (deferred_resolve p v w) = settle p (Fulfilled v) (promises w)"
  by (simp add: deferred_resolve_def emit_def)

lemma promises_deferred_reject [simp]:
  "promises (deferred_reject p e w) = settle p (Rejected e) (promises w)"
  by (simp add: deferred_reject_def emit_def)

lemma trace_deferred_resolve [simp]:
  "trace (deferred_resolve p v w) = trace w @ [DeferredResolve p v]"
  by (simp add: deferred_resolve_def emit_def)

lemma trace_deferred_reject [simp]:
  "trace (deferred_reject p e w) = trace w @ [DeferredReject p e]"
  by (simp add: deferred_reject_def emit_def)

lemma length_settle [simp]: "length (settle p r ps) = length ps"
  by (simp add: settle_def)

lemma settle_nth_other: "q \<noteq> p \<Longrightarrow> settle p r ps ! q = ps ! q"
  by (simp add: settle_def)

lemma settle_nth_pending: "p < length ps \<Longrightarrow> ps ! p = Pending \<Longrightarrow> settle p r ps ! p = r"
  by (simp add: settle_def)

lemma settle_nth_settled: "ps ! p \<noteq> Pending \<Longrightarrow> settle q r ps ! p = ps ! p"
  by (cases "q = p") (simp_all add: settle_def)

lemma store_ok_settle_delete:
  assumes ok: "store_ok w" and t: "forms w t = Some form"
    and f': "forms w' = (forms w)(t := None)"
    and p': "promises w' = settle (registration form) r (promises w)"
  shows "store_ok w'"
  unfolding store_ok_def
proof (intro conjI allI impI)
  fix u f assume u: "forms w' u = Some f"
  then have ut: "u \<noteq> t" and uf: "forms w u = Some f" using f' by (auto split: if_splits)
  from ok uf show "registration f < length (promises w')"
    by (simp add: store_ok_def p')
  from ok uf t ut have "registration f \<noteq> registration form"
    unfolding store_ok_def by blast
  moreover from ok uf have "promises w ! registration f = Pending"
    by (simp add: store_ok_def)
  ultimately show "promises w' ! registration f = Pending"
    by (simp add: p' settle_nth_other)
next
  fix u u' f f'
  assume "forms w' u = Some f" "forms w' u' = Some f'" "registration f = registration f'"
  then have "forms w u = Some f" "forms w u' = Some f'" "registration f = registration f'"
    using f' by (auto split: if_splits)
  with ok show "u = u'" unfolding store_ok_def by blast
qed

lemma store_ok_cancel_one: "store_ok w \<Longrightarrow> store_ok (cancel_one t w)"
proof (cases "forms w t")
  case None
  assume "store_ok w" then show ?thesis using None by (simp add: cancel_one_def)
next
  case (Some form)
  assume "store_ok w"
  then show ?thesis
    by (rule store_ok_settle_delete[OF _ Some]) (simp_all add: cancel_one_def Some)
qed

lemma store_ok_resolveForm:
  "inContentScript w \<Longrightarrow> store_ok w \<Longrightarrow> store_ok (snd (resolveForm t v w))"
proof (cases "forms w t")
  case None
  assume "inContentScript w" "store_ok w" then show ?thesis
    using None by (simp add: resolveForm_inCS)
next
  case (Some form)
  assume cs: "inContentScript w" and "store_ok w"
  then show ?thesis
    by (rule_tac store_ok_settle_delete[OF _ Some]) (simp_all add: resolveForm_inCS Some)
qed

lemma registerForm_fst:
  "inContentScript w \<Longrightarrow> fst (registerForm t d w) = Inr (length (promises w))"
  by (simp add: registerForm_def inCS_D pDefer_def Let_def)

lemma registerForm_forms:
  "inContentScript w \<Longrightarrow>
   forms (snd (registerForm t d w)) =
     (forms w)(t \<mapsto> \<lparr>definition' = d, registration = length (promises w)\<rparr>)"
  by (simp add: registerForm_def inCS_D pDefer_def Let_def emit_def)

lemma registerForm_promises:
  "inContentScript w \<Longrightarrow> promises (snd (registerForm t d w)) = promises w @ [Pending]"
  by (simp add: registerForm_def inCS_D pDefer_def Let_def emit_def)

lemma registerForm_trace:
  "inContentScript w \<Longrightarrow>
   trace (snd (registerForm t d w)) =
     trace w @ (if forms w t \<noteq> None
                then [ConsoleWarn ''A form was already registered with nonce %s'' t] else [])"
  by (simp add: registerForm_def inCS_D pDefer_def Let_def emit_def)

lemma store_ok_registerForm:
  assumes cs: "inContentScript w" and ok: "store_ok w"
  shows "store_ok (snd (registerForm t d w))"
  unfolding store_ok_def registerForm_forms[OF cs] registerForm_promises[OF cs]
proof (intro conjI allI impI)
  fix u f
  assume u: "((forms w)(t \<mapsto> \<lparr>definition' = d, registration = length (promises w)\<rparr>)) u = Some f"
  show "registration f < length (promises w @ [Pending])"
    using u ok by (auto simp: store_ok_def less_Suc_eq split: if_splits)
  show "(promises w @ [Pending]) ! registration f = Pending"
    using u ok by (auto simp: store_ok_def nth_append split: if_splits)
next
  fix u u' f f'
  assume "((forms w)(t \<mapsto> \<lparr>definition' = d, registration = length (promises w)\<rparr>)) u = Some f"
    "((forms w)(t \<mapsto> \<lparr>definition' = d, registration = length (promises w)\<rparr>)) u' = Some f'"
    "registration f = registration f'"
  then show "u = u'"
    using ok unfolding store_ok_def
    by (auto split: if_splits) (metis less_irrefl)+
qed

lemma inCS_contentScript: "inContentScript contentScript"
  by (simp add: inContentScript_def contentScript_def)

lemma inCS_registerForm [simp]:
  "inContentScript (snd (registerForm t d w)) = inContentScript w"
  by (simp add: registerForm_def inContentScript_def pDefer_def Let_def emit_def
      split: option.splits)

lemma inCS_oneForm: "inContentScript oneForm"
  by (simp add: oneForm_def inCS_contentScript)

lemma store_ok_contentScript: "store_ok contentScript"
  by (simp add: store_ok_def contentScript_def)

lemma store_ok_oneForm: "store_ok oneForm"
  unfolding oneForm_def
  by (rule store_ok_registerForm[OF inCS_contentScript store_ok_contentScript])

lemma forms_oneForm:
  "forms oneForm = [''a'' \<mapsto> \<lparr>definition' = demoForm, registration = 0\<rparr>]"
  by (simp add: oneForm_def registerForm_forms inCS_contentScript) (simp add: contentScript_def)

lemma promises_oneForm: "promises oneForm = [Pending]"
  by (simp add: oneForm_def registerForm_promises inCS_contentScript) (simp add: contentScript_def)

lemma trace_oneForm: "trace oneForm = []"
  by (simp add: oneForm_def registerForm_trace inCS_contentScript) (simp add: contentScript_def)

subsection \<open>Lookup\<close>

text \<open>
  Claim C5. \<^verbatim>\<open>getFormDefinition\<close> on a token without an entry throws, in whatever context
  it runs; in the content script the error is the \<^verbatim>\<open>TypeError\<close> of reading
  \<^verbatim>\<open>.definition\<close> of \<^verbatim>\<open>undefined\<close>, and nothing is changed. For a registered token it
  returns the definition that was registered.
\<close>

theorem getFormDefinition_fails_fast:
  "(forms w nonce = None \<longrightarrow> (\<exists>e. fst (getFormDefinition nonce w) = Inl e)) \<and>
   (inContentScript w \<longrightarrow>
      (forms w nonce = None \<longrightarrow> getFormDefinition nonce w = (Inl TypeError, w)) \<and>
      (\<forall>form. forms w nonce = Some form \<longrightarrow>
         getFormDefinition nonce w = (Inr (definition' form), w)))"
  by (simp add: getFormDefinition_def inContentScript_def split: option.splits)

theorem getFormDefinition_fails_fast_witness:
  "inContentScript oneForm \<and> forms oneForm ''b'' = None \<and>
   getFormDefinition ''b'' oneForm = (Inl TypeError, oneForm) \<and>
   forms oneForm ''a'' = Some \<lparr>definition' = demoForm, registration = 0\<rparr> \<and>
   getFormDefinition ''a'' oneForm = (Inr demoForm, oneForm)"
  using getFormDefinition_fails_fast[of oneForm "''b''"]
    getFormDefinition_fails_fast[of oneForm "''a''"]
  by (simp add: inCS_oneForm forms_oneForm)

subsection \<open>Registration\<close>

text \<open>
  Claim C6, as stated, fails: with a form registered as \<open>a\<close>, registering \<open>a\<close> again
  does not throw. It returns a new handle and the entry now holds that handle.
\<close>

theorem registerForm_duplicate_counterexample:
  "forms oneForm ''a'' = Some \<lparr>definition' = demoForm, registration = 0\<rparr> \<and>
   fst (registerForm ''a'' demoForm oneForm) = Inr 1 \<and>
   forms (snd (registerForm ''a'' demoForm oneForm)) ''a'' =
     Some \<lparr>definition' = demoForm, registration = 1\<rparr>"
  by (simp add: registerForm_fst registerForm_forms inCS_oneForm forms_oneForm promises_oneForm)

text \<open>
  Claim C6, amended. In the content script \<^verbatim>\<open>registerForm\<close> never fails: it makes a new
  pending promise, stores the definition with it under the token (replacing an entry
  that was there), and returns the promise; when the token was present it first logs a
  warning.
\<close>

theorem registerForm_overwrites:
  "inContentScript w \<Longrightarrow>
   fst (registerForm t d w) = Inr (length (promises w)) \<and>
   forms (snd (registerForm t d w)) =
     (forms w)(t \<mapsto> \<lparr>definition' = d, registration = length (promises w)\<rparr>) \<and>
   promises (snd (registerForm t d w)) = promises w @ [Pending] \<and>
   trace (snd (registerForm t d w)) =
     trace w @ (if forms w t \<noteq> None
                then [ConsoleWarn ''A form was already registered with nonce %s'' t] else [])"
  by (simp add: registerForm_def inCS_D pDefer_def Let_def emit_def)

theorem registerForm_overwrites_witness:
  "inContentScript oneForm \<and>
   fst (registerForm ''a'' demoForm oneForm) = Inr 1 \<and>
   forms (snd (registerForm ''a'' demoForm oneForm)) ''a'' =
     Some \<lparr>definition' = demoForm, registration = 1\<rparr> \<and>
   promises (snd (registerForm ''a'' demoForm oneForm)) = [Pending, Pending] \<and>
   trace (snd (registerForm ''a'' demoForm oneForm)) =
     [ConsoleWarn ''A form was already registered with nonce %s'' ''a'']"
  using registerForm_overwrites[of oneForm "''a''" demoForm]
  by (simp add: inCS_oneForm forms_oneForm promises_oneForm trace_oneForm)

subsection \<open>Resolution\<close>

text \<open>
  Claim C2. In the content script \<^verbatim>\<open>resolveForm\<close> throws
  \<^verbatim>\<open>Error("Form not registered: ...")\<close> exactly when the token has no entry, and then it
  changes nothing. When the token has an entry, the promise of that entry is fulfilled
  with the value passed, whatever the value, and the entry is deleted. The promise is the
  one \<^verbatim>\<open>registerForm\<close> returned: registering and then resolving fulfils it.
\<close>

theorem resolveForm_delivers:
  assumes cs: "inContentScript w" and ok: "store_ok w"
  shows "(fst (resolveForm t v w) = Inl (Error (''Form not registered: '' @ t))
            \<longleftrightarrow> forms w t = None) \<and>
         (forms w t = None \<longrightarrow> snd (resolveForm t v w) = w) \<and>
         (\<forall>form. forms w t = Some form \<longrightarrow>
            fst (resolveForm t v w) = Inr () \<and>
            promises (snd (resolveForm t v w)) ! registration form = Fulfilled v \<and>
            forms (snd (resolveForm t v w)) = (forms w)(t := None)) \<and>
         (\<forall>d. \<exists>p. fst (registerForm t d w) = Inr p \<and>
            promises (snd (registerForm t d w)) ! p = Pending \<and>
            fst (resolveForm t v (snd (registerForm t d w))) = Inr () \<and>
            promises (snd (resolveForm t v (snd (registerForm t d w)))) ! p = Fulfilled v \<and>
            forms (snd (resolveForm t v (snd (registerForm t d w)))) t = None)"
proof (intro conjI allI impI)
  show "(fst (resolveForm t v w) = Inl (Error (''Form not registered: '' @ t)))
          = (forms w t = None)"
    by (simp add: resolveForm_inCS[OF cs] split: option.splits)
  show "snd (resolveForm t v w) = w" if "forms w t = None"
    using that by (simp add: resolveForm_inCS[OF cs])
next
  fix form assume f: "forms w t = Some form"
  show "fst (resolveForm t v w) = Inr ()"
    by (simp add: resolveForm_inCS[OF cs] f)
  from ok f have "registration form < length (promises w)"
    "promises w ! registration form = Pending"
    by (simp_all add: store_ok_def)
  then show "promises (snd (resolveForm t v w)) ! registration form = Fulfilled v"
    by (simp add: resolveForm_inCS[OF cs] f settle_nth_pending)
  show "forms (snd (resolveForm t v w)) = (forms w)(t := None)"
    by (simp add: resolveForm_inCS[OF cs] f)
next
  fix d
  let ?w1 = "snd (registerForm t d w)"
  let ?p = "length (promises w)"
  have cs1: "inContentScript ?w1" using cs by simp
  have f1: "forms ?w1 t = Some \<lparr>definition' = d, registration = ?p\<rparr>"
    by (simp add: registerForm_forms[OF cs])
  have p1: "promises ?w1 = promises w @ [Pending]"
    by (rule registerForm_promises[OF cs])
  show "\<exists>p. fst (registerForm t d w) = Inr p \<and>
            promises ?w1 ! p = Pending \<and>
            fst (resolveForm t v ?w1) = Inr () \<and>
            promises (snd (resolveForm t v ?w1)) ! p = Fulfilled v \<and>
            forms (snd (resolveForm t v ?w1)) t = None"
    by (rule exI[of _ ?p])
       (simp add: registerForm_fst[OF cs] resolveForm_inCS[OF cs1] f1 p1 settle_nth_pending)
qed

theorem resolveForm_delivers_witness:
  "inContentScript oneForm \<and> store_ok oneForm \<and>
   fst (resolveForm ''b'' JNull oneForm) = Inl (Error ''Form not registered: b'') \<and>
   snd (resolveForm ''b'' JNull oneForm) = oneForm \<and>
   fst (resolveForm ''a'' JNull oneForm) = Inr () \<and>
   promises (snd (resolveForm ''a'' JNull oneForm)) ! 0 = Fulfilled JNull \<and>
   promises (snd (resolveForm ''a'' (JObj []) oneForm)) ! 0 = Fulfilled (JObj []) \<and>
   promises (snd (resolveForm ''a'' (JObj [(''k'', JArr [JObj [], JNull])]) oneForm)) ! 0 =
     Fulfilled (JObj [(''k'', JArr [JObj [], JNull])]) \<and>
   forms (snd (resolveForm ''a'' JNull oneForm)) ''a'' = None"
  using resolveForm_delivers[OF inCS_oneForm store_ok_oneForm, of "''b''" JNull]
    resolveForm_delivers[OF inCS_oneForm store_ok_oneForm, of "''a''" JNull]
    resolveForm_delivers[OF inCS_oneForm store_ok_oneForm, of "''a''" "JObj []"]
    resolveForm_delivers[OF inCS_oneForm store_ok_oneForm, of "''a''"
      "JObj [(''k'', JArr [JObj [], JNull])]"]
  by (simp add: inCS_oneForm store_ok_oneForm forms_oneForm)

subsection \<open>The loop of \<^verbatim>\<open>cancelForm\<close>\<close>

lemma forms_cancel_one [simp]: "forms (cancel_one t w) = (forms w)(t := None)"
  by (simp add: cancel_one_def fun_upd_idem split: option.splits)

lemma promises_cancel_one:
  "promises (cancel_one t w) =
     (case forms w t of
        None \<Rightarrow> promises w
      | Some f \<Rightarrow> settle (registration f) (Rejected (CancelError ''User cancelled the action''))
                   (promises w))"
  by (simp add: cancel_one_def split: option.splits)

lemma trace_cancel_one:
  "trace (cancel_one t w) =
     trace w @ (case forms w t of
                  None \<Rightarrow> []
                | Some f \<Rightarrow> [DeferredReject (registration f)
                               (CancelError ''User cancelled the action'')])"
  by (simp add: cancel_one_def split: option.splits)

lemma cancel_one_absent: "forms w t = None \<Longrightarrow> cancel_one t w = w"
  by (simp add: cancel_one_def)

lemma forms_fold_cancel_one:
  "forms (fold cancel_one ts w) = (\<lambda>t. if t \<in> set ts then None else forms w t)"
  by (induction ts arbitrary: w) auto

lemma fold_cancel_one_absent:
  "\<forall>t\<in>set ts. forms w t = None \<Longrightarrow> fold cancel_one ts w = w"
  by (induction ts arbitrary: w) (simp_all add: cancel_one_absent)

lemma settle_calls_append [simp]:
  "settle_calls p (tr @ tr') = settle_calls p tr + settle_calls p tr'"
  by (simp add: settle_calls_def)

lemma settle_calls_Nil [simp]: "settle_calls p [] = 0"
  by (simp add: settle_calls_def)

lemma settle_calls_single [simp]: "settle_calls p [e] = (if settles p e then 1 else 0)"
  by (simp add: settle_calls_def)

lemma targets_Cons_hit:
  assumes ok: "store_ok w" and t: "forms w t = Some f" and p: "registration f = p"
  shows "\<not> targets (cancel_one t w) ts p"
proof
  assume "targets (cancel_one t w) ts p"
  then obtain u g where u: "u \<noteq> t" "forms w u = Some g" "registration g = p"
    by (auto simp: targets_def split: if_splits)
  with ok t p show False unfolding store_ok_def by metis
qed

lemma targets_Cons:
  "targets w (t # ts) p \<longleftrightarrow>
     (\<exists>f. forms w t = Some f \<and> registration f = p) \<or> targets (cancel_one t w) ts p"
  by (auto simp: targets_def)

lemma calls_fold_cancel_one:
  "store_ok w \<Longrightarrow>
   settle_calls p (trace (fold cancel_one ts w)) =
     settle_calls p (trace w) + (if targets w ts p then 1 else 0)"
proof (induction ts arbitrary: w)
  case Nil
  show ?case by (simp add: targets_def)
next
  case (Cons t ts)
  have ok': "store_ok (cancel_one t w)" by (rule store_ok_cancel_one[OF Cons.prems])
  show ?case
  proof (cases "\<exists>f. forms w t = Some f \<and> registration f = p")
    case True
    then obtain f where f: "forms w t = Some f" "registration f = p" by blast
    have "\<not> targets (cancel_one t w) ts p"
      by (rule targets_Cons_hit[OF Cons.prems f])
    moreover have "targets w (t # ts) p" using True by (simp add: targets_Cons)
    ultimately show ?thesis
      using Cons.IH[OF ok'] f by (simp add: trace_cancel_one)
  next
    case False
    then have "targets w (t # ts) p = targets (cancel_one t w) ts p"
      unfolding targets_Cons by blast
    moreover have "settle_calls p (trace (cancel_one t w)) = settle_calls p (trace w)"
      using False by (auto simp: trace_cancel_one split: option.splits)
    ultimately show ?thesis using Cons.IH[OF ok'] by simp
  qed
qed

lemma promises_fold_cancel_one:
  "store_ok w \<Longrightarrow>
   promises (fold cancel_one ts w) ! p =
     (if targets w ts p then Rejected (CancelError ''User cancelled the action'')
      else promises w ! p)"
proof (induction ts arbitrary: w)
  case Nil
  show ?case by (simp add: targets_def)
next
  case (Cons t ts)
  have ok': "store_ok (cancel_one t w)" by (rule store_ok_cancel_one[OF Cons.prems])
  show ?case
  proof (cases "\<exists>f. forms w t = Some f \<and> registration f = p")
    case True
    then obtain f where f: "forms w t = Some f" "registration f = p" by blast
    have "\<not> targets (cancel_one t w) ts p"
      by (rule targets_Cons_hit[OF Cons.prems f])
    moreover have "targets w (t # ts) p" using True by (simp add: targets_Cons)
    moreover have "p < length (promises w)" "promises w ! p = Pending"
      using Cons.prems f by (auto simp: store_ok_def)
    ultimately show ?thesis
      using Cons.IH[OF ok'] f by (simp add: promises_cancel_one settle_nth_pending)
  next
    case False
    then have "targets w (t # ts) p = targets (cancel_one t w) ts p"
      unfolding targets_Cons by blast
    moreover have "promises (cancel_one t w) ! p = promises w ! p"
      using False by (auto simp: promises_cancel_one settle_nth_other split: option.splits)
    ultimately show ?thesis using Cons.IH[OF ok'] by simp
  qed
qed

subsection \<open>Cancellation\<close>

text \<open>
  Claim C3. In the content script \<^verbatim>\<open>cancelForm\<close> never throws, for any list of tokens.
  Afterwards no token of the list has an entry and the other entries are as before. For
  each token of the list that had an entry, the promise of the entry is rejected with
  \<^verbatim>\<open>CancelError("User cancelled the action")\<close> and was settled by exactly one more call,
  however often the token is listed. Every other promise is as before and got no call.
  When no token of the list has an entry, nothing at all changes.
\<close>

theorem cancelForm_variadic:
  assumes cs: "inContentScript w" and ok: "store_ok w"
  shows "fst (cancelForm ts w) = Inr () \<and>
         forms (snd (cancelForm ts w)) = (\<lambda>t. if t \<in> set ts then None else forms w t) \<and>
         (\<forall>t\<in>set ts. \<forall>form. forms w t = Some form \<longrightarrow>
            promises (snd (cancelForm ts w)) ! registration form =
              Rejected (CancelError ''User cancelled the action'') \<and>
            settle_calls (registration form) (trace (snd (cancelForm ts w))) =
              settle_calls (registration form) (trace w) + 1) \<and>
         (\<forall>p. (\<forall>t\<in>set ts. \<forall>form. forms w t = Some form \<longrightarrow> registration form \<noteq> p) \<longrightarrow>
            promises (snd (cancelForm ts w)) ! p = promises w ! p \<and>
            settle_calls p (trace (snd (cancelForm ts w))) = settle_calls p (trace w)) \<and>
         ((\<forall>t\<in>set ts. forms w t = None) \<longrightarrow> snd (cancelForm ts w) = w)"
proof -
  have eq: "cancelForm ts w = (Inr (), fold cancel_one ts w)"
    by (rule cancelForm_fold[OF cs])
  have hit: "targets w ts (registration form)" if "t \<in> set ts" "forms w t = Some form"
    for t form using that by (auto simp: targets_def)
  have miss: "\<not> targets w ts p"
    if "\<forall>t\<in>set ts. \<forall>form. forms w t = Some form \<longrightarrow> registration form \<noteq> p" for p
    using that by (auto simp: targets_def)
  show ?thesis
    unfolding eq fst_conv snd_conv
    by (intro conjI ballI allI impI)
       (simp_all add: forms_fold_cancel_one fold_cancel_one_absent
          calls_fold_cancel_one[OF ok] promises_fold_cancel_one[OF ok] hit miss)
qed

lemma inCS_twoForms: "inContentScript twoForms"
  by (simp add: twoForms_def inCS_oneForm)

lemma store_ok_twoForms: "store_ok twoForms"
  unfolding twoForms_def by (rule store_ok_registerForm[OF inCS_oneForm store_ok_oneForm])

lemma forms_twoForms:
  "forms twoForms = [''a'' \<mapsto> \<lparr>definition' = demoForm, registration = 0\<rparr>,
                     ''c'' \<mapsto> \<lparr>definition' = demoForm, registration = 1\<rparr>]"
  by (simp add: twoForms_def registerForm_forms inCS_oneForm forms_oneForm promises_oneForm)

lemma promises_twoForms: "promises twoForms = [Pending, Pending]"
  by (simp add: twoForms_def registerForm_promises inCS_oneForm promises_oneForm)

lemma trace_twoForms: "trace twoForms = []"
  by (simp add: twoForms_def registerForm_trace inCS_oneForm trace_oneForm forms_oneForm)

theorem cancelForm_variadic_witness:
  "inContentScript twoForms \<and> store_ok twoForms \<and>
   forms twoForms ''a'' = Some \<lparr>definition' = demoForm, registration = 0\<rparr> \<and>
   forms twoForms ''b'' = None \<and>
   fst (cancelForm [''a'', ''b'', ''a''] twoForms) = Inr () \<and>
   forms (snd (cancelForm [''a'', ''b'', ''a''] twoForms)) ''a'' = None \<and>
   promises (snd (cancelForm [''a'', ''b'', ''a''] twoForms)) ! 0 =
     Rejected (CancelError ''User cancelled the action'') \<and>
   settle_calls 0 (trace (snd (cancelForm [''a'', ''b'', ''a''] twoForms))) = 1 \<and>
   promises (snd (cancelForm [''a'', ''b'', ''a''] twoForms)) ! 1 = Pending \<and>
   settle_calls 1 (trace (snd (cancelForm [''a'', ''b'', ''a''] twoForms))) = 0 \<and>
   forms (snd (cancelForm [''a'', ''b'', ''a''] twoForms)) ''c'' =
     Some \<lparr>definition' = demoForm, registration = 1\<rparr> \<and>
   snd (cancelForm [''b'', ''d''] twoForms) = twoForms"
  using cancelForm_variadic[OF inCS_twoForms store_ok_twoForms, of "[''a'', ''b'', ''a'']"]
    cancelForm_variadic[OF inCS_twoForms store_ok_twoForms, of "[''b'', ''d'']"]
  by (simp add: inCS_twoForms store_ok_twoForms forms_twoForms promises_twoForms trace_twoForms)

subsection \<open>Sequences of operations\<close>

lemma not_inCS_apply_op: "\<not> inContentScript w \<Longrightarrow> apply_op c w = w"
  by (cases c)
     (auto simp: inContentScript_def registerForm_def getFormDefinition_def resolveForm_def
        cancelForm_def)

lemma getFormDefinition_snd [simp]: "snd (getFormDefinition t w) = w"
  by (simp add: getFormDefinition_def split: option.splits)

lemma cancelForm_snd: "inContentScript w \<Longrightarrow> snd (cancelForm ts w) = fold cancel_one ts w"
  by (simp add: cancelForm_fold)

lemma inCS_fold_cancel_one [simp]:
  "inContentScript (fold cancel_one ts w) = inContentScript w"
  by (induction ts arbitrary: w) simp_all

lemma store_ok_fold_cancel_one: "store_ok w \<Longrightarrow> store_ok (fold cancel_one ts w)"
  by (induction ts arbitrary: w) (simp_all add: store_ok_cancel_one)

lemma inCS_resolveForm [simp]: "inContentScript (snd (resolveForm t v w)) = inContentScript w"
  by (simp add: resolveForm_def unregisterForm_def inContentScript_def split: option.splits)

lemma inCS_apply_op [simp]: "inContentScript (apply_op c w) = inContentScript w"
proof (cases "inContentScript w")
  case True
  then show ?thesis by (cases c) (simp_all add: cancelForm_snd)
next
  case False
  then show ?thesis by (simp add: not_inCS_apply_op)
qed

lemma store_ok_apply_op: "store_ok w \<Longrightarrow> store_ok (apply_op c w)"
proof (cases "inContentScript w")
  case True
  assume "store_ok w"
  with True show ?thesis
    by (cases c)
       (simp_all add: store_ok_registerForm store_ok_resolveForm cancelForm_snd
          store_ok_fold_cancel_one)
next
  case False
  assume "store_ok w"
  with False show ?thesis by (simp add: not_inCS_apply_op)
qed

lemma store_ok_run_ops: "store_ok w \<Longrightarrow> store_ok (run_ops ops w)"
  unfolding run_ops_def by (induction ops arbitrary: w) (simp_all add: store_ok_apply_op)

lemma settled_at_settle:
  "settled_at p s w \<Longrightarrow> length (promises w') = length (promises w) \<Longrightarrow>
   promises w' = settle q r (promises w) \<Longrightarrow> settled_at p s w'"
  by (auto simp: settled_at_def settle_nth_settled)

lemma settled_at_cancel_one: "settled_at p s w \<Longrightarrow> settled_at p s (cancel_one t w)"
  by (cases "forms w t") (auto simp: cancel_one_def settled_at_def settle_nth_settled)

lemma settled_at_fold_cancel_one: "settled_at p s w \<Longrightarrow> settled_at p s (fold cancel_one ts w)"
  by (induction ts arbitrary: w) (simp_all add: settled_at_cancel_one)

lemma settled_at_apply_op: "settled_at p s w \<Longrightarrow> settled_at p s (apply_op c w)"
proof (cases "inContentScript w")
  case True
  assume s: "settled_at p s w"
  show ?thesis
  proof (cases c)
    case (RegisterForm t d)
    with s True show ?thesis
      by (auto simp: settled_at_def registerForm_promises nth_append)
  next
    case (GetFormDefinition t)
    with s show ?thesis by simp
  next
    case (ResolveForm t v)
    with s True show ?thesis
      by (cases "forms w t") (auto simp: resolveForm_inCS settled_at_def settle_nth_settled)
  next
    case (CancelForm ts)
    with s True show ?thesis by (simp add: cancelForm_snd settled_at_fold_cancel_one)
  qed
next
  case False
  assume "settled_at p s w"
  with False show ?thesis by (simp add: not_inCS_apply_op)
qed

lemma settled_at_run_ops: "settled_at p s w \<Longrightarrow> settled_at p s (run_ops ops w)"
  unfolding run_ops_def by (induction ops arbitrary: w) (simp_all add: settled_at_apply_op)

lemma calls_ok_settle:
  assumes ok: "store_ok w" and c: "calls_ok w" and t: "forms w t = Some form"
    and tr: "trace w' = trace w @ [e]"
    and e: "\<And>p. settles p e \<longleftrightarrow> p = registration form"
    and ps: "promises w' = settle (registration form) r (promises w)"
    and r: "r \<noteq> Pending"
  shows "calls_ok w'"
proof -
  let ?q = "registration form"
  from ok t have q: "?q < length (promises w)" "promises w ! ?q = Pending"
    by (simp_all add: store_ok_def)
  from c q have q0: "settle_calls ?q (trace w) = 0"
    unfolding calls_ok_def by (metis le_neq_implies_less less_one)
  have "settle_calls p (trace w') \<le> 1 \<and>
        (settle_calls p (trace w') = 1 \<longrightarrow> p < length (promises w') \<and> promises w' ! p \<noteq> Pending)"
    for p
  proof (cases "p = ?q")
    case True
    then show ?thesis using q q0 r by (simp add: tr e ps settle_nth_pending)
  next
    case False
    then show ?thesis using c by (simp add: tr e ps settle_nth_other calls_ok_def)
  qed
  then show ?thesis unfolding calls_ok_def by blast
qed

lemma calls_ok_cancel_one: "store_ok w \<Longrightarrow> calls_ok w \<Longrightarrow> calls_ok (cancel_one t w)"
proof (cases "forms w t")
  case None
  assume "store_ok w" "calls_ok w"
  then show ?thesis using None by (simp add: cancel_one_absent)
next
  case (Some form)
  assume "store_ok w" "calls_ok w"
  then show ?thesis
    by (rule calls_ok_settle[OF _ _ Some,
          where e = "DeferredReject (registration form) (CancelError ''User cancelled the action'')"
            and r = "Rejected (CancelError ''User cancelled the action'')"])
       (auto simp: cancel_one_def Some)
qed

lemma calls_ok_fold_cancel_one:
  "store_ok w \<Longrightarrow> calls_ok w \<Longrightarrow> calls_ok (fold cancel_one ts w)"
  by (induction ts arbitrary: w) (simp_all add: calls_ok_cancel_one store_ok_cancel_one)

lemma calls_ok_resolveForm:
  "inContentScript w \<Longrightarrow> store_ok w \<Longrightarrow> calls_ok w \<Longrightarrow> calls_ok (snd (resolveForm t v w))"
proof (cases "forms w t")
  case None
  assume "inContentScript w" "store_ok w" "calls_ok w"
  then show ?thesis using None by (simp add: resolveForm_inCS)
next
  case (Some form)
  assume cs: "inContentScript w" and "store_ok w" "calls_ok w"
  then show ?thesis
    by (rule_tac calls_ok_settle[OF _ _ Some,
          where e = "DeferredResolve (registration form) v" and r = "Fulfilled v"])
       (auto simp: resolveForm_inCS Some)
qed

lemma calls_ok_registerForm:
  assumes cs: "inContentScript w" and c: "calls_ok w"
  shows "calls_ok (snd (registerForm t d w))"
  using c unfolding calls_ok_def registerForm_promises[OF cs] registerForm_trace[OF cs]
  by (auto simp: nth_append)

lemma calls_ok_apply_op: "store_ok w \<Longrightarrow> calls_ok w \<Longrightarrow> calls_ok (apply_op c w)"
proof (cases "inContentScript w")
  case True
  assume "store_ok w" "calls_ok w"
  with True show ?thesis
    by (cases c)
       (simp_all add: calls_ok_registerForm calls_ok_resolveForm cancelForm_snd
          calls_ok_fold_cancel_one)
next
  case False
  assume "store_ok w" "calls_ok w"
  with False show ?thesis by (simp add: not_inCS_apply_op)
qed

lemma calls_ok_run_ops: "store_ok w \<Longrightarrow> calls_ok w \<Longrightarrow> calls_ok (run_ops ops w)"
  unfolding run_ops_def
  by (induction ops arbitrary: w) (simp_all add: calls_ok_apply_op store_ok_apply_op)

lemma settle_nth_other': "p \<noteq> q \<Longrightarrow> settle p r ps ! q = ps ! q"
  by (simp add: settle_def)

lemma orphan_cancel_one: "orphan p w \<Longrightarrow> orphan p (cancel_one t w)"
  by (cases "forms w t")
     (auto simp: orphan_def cancel_one_absent promises_cancel_one settle_nth_other'
        split: if_splits)

lemma orphan_fold_cancel_one: "orphan p w \<Longrightarrow> orphan p (fold cancel_one ts w)"
  by (induction ts arbitrary: w) (simp_all add: orphan_cancel_one)

lemma orphan_apply_op: "orphan p w \<Longrightarrow> orphan p (apply_op c w)"
proof (cases "inContentScript w")
  case True
  assume o: "orphan p w"
  show ?thesis
  proof (cases c)
    case (RegisterForm t d)
    with o True show ?thesis
      by (auto simp: orphan_def registerForm_promises registerForm_forms nth_append
            split: if_splits)
  next
    case (GetFormDefinition t)
    with o show ?thesis by simp
  next
    case (ResolveForm t v)
    with o True show ?thesis
      by (cases "forms w t")
         (auto simp: resolveForm_inCS orphan_def settle_nth_other' split: if_splits)
  next
    case (CancelForm ts)
    with o True show ?thesis by (simp add: cancelForm_snd orphan_fold_cancel_one)
  qed
next
  case False
  assume "orphan p w"
  with False show ?thesis by (simp add: not_inCS_apply_op)
qed

lemma orphan_run_ops: "orphan p w \<Longrightarrow> orphan p (run_ops ops w)"
  unfolding run_ops_def by (induction ops arbitrary: w) (simp_all add: orphan_apply_op)

lemma orphan_after_overwrite:
  assumes cs: "inContentScript w" and ok: "store_ok w" and t: "forms w t = Some form"
  shows "orphan (registration form) (snd (registerForm t d w))"
  unfolding orphan_def registerForm_promises[OF cs] registerForm_forms[OF cs]
proof (intro conjI allI impI)
  from ok t have q: "registration form < length (promises w)"
    "promises w ! registration form = Pending"
    by (simp_all add: store_ok_def)
  then show "registration form < length (promises w @ [Pending])"
    "(promises w @ [Pending]) ! registration form = Pending"
    by (simp_all add: nth_append)
  fix u f
  assume u: "((forms w)(t \<mapsto> \<lparr>definition' = d, registration = length (promises w)\<rparr>)) u = Some f"
  show "registration f \<noteq> registration form"
  proof (cases "u = t")
    case True
    with u q show ?thesis by auto
  next
    case False
    with u have "forms w u = Some f" by simp
    with ok t False show ?thesis unfolding store_ok_def by metis
  qed
qed

subsection \<open>Registering a token twice\<close>

text \<open>
  Claim C10. When \<^verbatim>\<open>registerForm\<close> is called for a token whose entry is still there, the
  entry is overwritten with a new handle, different from the old one. The promise of the
  old entry, which the first caller awaits, stays pending whatever operations of the
  protocol are called afterwards, on this token or on any other.
\<close>

theorem orphaned_registration:
  assumes cs: "inContentScript w" and ok: "store_ok w" and t: "forms w t = Some form"
  shows "fst (registerForm t d w) = Inr (length (promises w)) \<and>
         length (promises w) \<noteq> registration form \<and>
         forms (snd (registerForm t d w)) t =
           Some \<lparr>definition' = d, registration = length (promises w)\<rparr> \<and>
         (\<forall>ops. registration form < length (promises (run_ops ops (snd (registerForm t d w)))) \<and>
                promises (run_ops ops (snd (registerForm t d w))) ! registration form = Pending)"
proof -
  have "registration form < length (promises w)" using ok t by (simp add: store_ok_def)
  then have ne: "length (promises w) \<noteq> registration form" by simp
  have "orphan (registration form) (run_ops ops (snd (registerForm t d w)))" for ops
    by (rule orphan_run_ops[OF orphan_after_overwrite[OF cs ok t]])
  then show ?thesis
    using ne by (simp add: registerForm_fst[OF cs] registerForm_forms[OF cs] orphan_def)
qed

lemma run_ops_Nil [simp]: "run_ops [] w = w"
  by (simp add: run_ops_def)

lemma run_ops_Cons [simp]: "run_ops (c # ops) w = run_ops ops (apply_op c w)"
  by (simp add: run_ops_def)

theorem orphaned_registration_witness:
  "inContentScript oneForm \<and> store_ok oneForm \<and>
   forms oneForm ''a'' = Some \<lparr>definition' = demoForm, registration = 0\<rparr> \<and>
   fst (registerForm ''a'' demoForm oneForm) = Inr 1 \<and>
   promises (run_ops [ResolveForm ''a'' JNull, CancelForm [''a'']]
               (snd (registerForm ''a'' demoForm oneForm))) ! 0 = Pending"
  using orphaned_registration[OF inCS_oneForm store_ok_oneForm, of "''a''"
      "\<lparr>definition' = demoForm, registration = 0\<rparr>" demoForm]
  by (simp add: inCS_oneForm store_ok_oneForm forms_oneForm promises_oneForm
      del: run_ops_Cons run_ops_Nil)

subsection \<open>Single settlement\<close>

text \<open>
  Claim C1. For a token with a pending entry: \<^verbatim>\<open>resolveForm\<close> succeeds and deletes the
  entry, after which \<^verbatim>\<open>resolveForm\<close> on the token throws
  \<^verbatim>\<open>Error("Form not registered: ...")\<close> and \<^verbatim>\<open>cancelForm\<close> on it changes nothing; the
  same holds after \<^verbatim>\<open>cancelForm\<close>. A promise that has settled keeps its state through
  every later sequence of operations, and over every such sequence each promise receives
  at most one call of \<^verbatim>\<open>resolve\<close> or \<^verbatim>\<open>reject\<close>.
\<close>

theorem single_settlement:
  assumes cs: "inContentScript w" and ok: "store_ok w" and calls: "calls_ok w"
  shows "(\<forall>form v. forms w t = Some form \<longrightarrow>
            fst (resolveForm t v w) = Inr () \<and>
            forms (snd (resolveForm t v w)) t = None \<and>
            (\<forall>v'. resolveForm t v' (snd (resolveForm t v w)) =
                    (Inl (Error (''Form not registered: '' @ t)), snd (resolveForm t v w))) \<and>
            cancelForm [t] (snd (resolveForm t v w)) = (Inr (), snd (resolveForm t v w))) \<and>
         (\<forall>form. forms w t = Some form \<longrightarrow>
            fst (cancelForm [t] w) = Inr () \<and>
            forms (snd (cancelForm [t] w)) t = None \<and>
            (\<forall>v'. resolveForm t v' (snd (cancelForm [t] w)) =
                    (Inl (Error (''Form not registered: '' @ t)), snd (cancelForm [t] w))) \<and>
            cancelForm [t] (snd (cancelForm [t] w)) = (Inr (), snd (cancelForm [t] w))) \<and>
         (\<forall>ops p. p < length (promises w) \<longrightarrow> promises w ! p \<noteq> Pending \<longrightarrow>
            p < length (promises (run_ops ops w)) \<and>
            promises (run_ops ops w) ! p = promises w ! p) \<and>
         (\<forall>ops p. settle_calls p (trace (run_ops ops w)) \<le> 1)"
proof (intro conjI allI impI)
  fix form v assume f: "forms w t = Some form"
  let ?w1 = "snd (resolveForm t v w)"
  have cs1: "inContentScript ?w1" using cs by simp
  have f1: "forms ?w1 t = None" by (simp add: resolveForm_inCS[OF cs] f)
  show "fst (resolveForm t v w) = Inr ()" by (simp add: resolveForm_inCS[OF cs] f)
  show "forms ?w1 t = None" by (rule f1)
  show "resolveForm t v' ?w1 = (Inl (Error (''Form not registered: '' @ t)), ?w1)" for v'
    by (simp add: resolveForm_inCS[OF cs1] f1)
  show "cancelForm [t] ?w1 = (Inr (), ?w1)"
    by (simp add: cancelForm_fold[OF cs1] cancel_one_absent[OF f1])
next
  fix form assume f: "forms w t = Some form"
  let ?w1 = "snd (cancelForm [t] w)"
  have w1: "?w1 = cancel_one t w" by (simp add: cancelForm_fold[OF cs])
  have cs1: "inContentScript ?w1" using cs by (simp add: w1)
  have f1: "forms ?w1 t = None" by (simp add: w1)
  show "fst (cancelForm [t] w) = Inr ()" by (simp add: cancelForm_fold[OF cs])
  show "forms ?w1 t = None" by (rule f1)
  show "resolveForm t v' ?w1 = (Inl (Error (''Form not registered: '' @ t)), ?w1)" for v'
    by (simp add: resolveForm_inCS[OF cs1] f1)
  show "cancelForm [t] ?w1 = (Inr (), ?w1)"
    by (simp add: cancelForm_fold[OF cs1] cancel_one_absent[OF f1])
next
  fix ops p assume "p < length (promises w)" "promises w ! p \<noteq> Pending"
  then have "settled_at p (promises w ! p) w" by (simp add: settled_at_def)
  then have "settled_at p (promises w ! p) (run_ops ops w)" by (rule settled_at_run_ops)
  then show "p < length (promises (run_ops ops w))"
    "promises (run_ops ops w) ! p = promises w ! p"
    by (simp_all add: settled_at_def)
next
  fix ops p
  have "calls_ok (run_ops ops w)" by (rule calls_ok_run_ops[OF ok calls])
  then show "settle_calls p (trace (run_ops ops w)) \<le> 1" by (simp add: calls_ok_def)
qed

lemma calls_ok_contentScript: "calls_ok contentScript"
  by (simp add: calls_ok_def contentScript_def)

lemma calls_ok_oneForm: "calls_ok oneForm"
  unfolding oneForm_def by (rule calls_ok_registerForm[OF inCS_contentScript calls_ok_contentScript])

lemma inCS_resolvedForm: "inContentScript resolvedForm"
  by (simp add: resolvedForm_def inCS_oneForm)

lemma store_ok_resolvedForm: "store_ok resolvedForm"
  unfolding resolvedForm_def by (rule store_ok_resolveForm[OF inCS_oneForm store_ok_oneForm])

lemma calls_ok_resolvedForm: "calls_ok resolvedForm"
  unfolding resolvedForm_def
  by (rule calls_ok_resolveForm[OF inCS_oneForm store_ok_oneForm calls_ok_oneForm])

lemma promises_resolvedForm: "promises resolvedForm = [Fulfilled (JBool True)]"
  by (simp add: resolvedForm_def resolveForm_inCS inCS_oneForm forms_oneForm promises_oneForm
      settle_def)

theorem single_settlement_witness:
  "inContentScript oneForm \<and> store_ok oneForm \<and> calls_ok oneForm \<and>
   forms oneForm ''a'' = Some \<lparr>definition' = demoForm, registration = 0\<rparr> \<and>
   fst (resolveForm ''a'' JNull (snd (resolveForm ''a'' (JBool True) oneForm))) =
     Inl (Error ''Form not registered: a'') \<and>
   fst (resolveForm ''a'' JNull (snd (cancelForm [''a''] oneForm))) =
     Inl (Error ''Form not registered: a'') \<and>
   cancelForm [''a''] (snd (cancelForm [''a''] oneForm)) = (Inr (), snd (cancelForm [''a''] oneForm)) \<and>
   inContentScript resolvedForm \<and> store_ok resolvedForm \<and> calls_ok resolvedForm \<and>
   0 < length (promises resolvedForm) \<and> promises resolvedForm ! 0 \<noteq> Pending \<and>
   promises (run_ops [CancelForm [''a''], RegisterForm ''a'' demoForm, ResolveForm ''a'' JNull]
               resolvedForm) ! 0 = Fulfilled (JBool True) \<and>
   settle_calls 0 (trace (run_ops [ResolveForm ''a'' JNull, CancelForm [''a'']] oneForm)) \<le> 1"
  using single_settlement[OF inCS_oneForm store_ok_oneForm calls_ok_oneForm, of "''a''"]
    single_settlement[OF inCS_resolvedForm store_ok_resolvedForm calls_ok_resolvedForm, of "''a''"]
  by (simp add: inCS_oneForm store_ok_oneForm calls_ok_oneForm forms_oneForm
        inCS_resolvedForm store_ok_resolvedForm calls_ok_resolvedForm promises_resolvedForm
      del: run_ops_Cons run_ops_Nil)

subsection \<open>The surface through the events\<close>

lemma surface_forms_update [simp]: "surface (w\<lparr>forms := m\<rparr>) = surface w"
  by (simp add: surface_def)

lemma surface_promises_update [simp]: "surface (w\<lparr>promises := ps\<rparr>) = surface w"
  by (simp add: surface_def)

lemma surface_abortSignals_update [simp]: "surface (w\<lparr>abortSignals := ss\<rparr>) = surface w"
  by (simp add: surface_def)

lemma surface_emit:
  "surface (emit e w) =
     (controller w, panelHidingListeners w,
      creations (trace w) + (if is_creation e then 1 else 0),
      teardowns (trace w) + (if e = ControllerAbortEvent then 1 else 0),
      hides (trace w) + (if is_hide e then 1 else 0),
      sidebar_shows (trace w) + (if is_sidebar_show e then 1 else 0))"
  by (simp add: surface_def emit_def creations_def teardowns_def hides_def sidebar_shows_def)

lemma surface_deferred_resolve [simp]: "surface (deferred_resolve p v w) = surface w"
  by (simp add: deferred_resolve_def surface_emit) (simp add: surface_def)

lemma surface_deferred_reject [simp]: "surface (deferred_reject p e w) = surface w"
  by (simp add: deferred_reject_def surface_emit) (simp add: surface_def)

lemma surface_cancel_one [simp]: "surface (cancel_one t w) = surface w"
  by (simp add: cancel_one_def split: option.splits)

lemma surface_fold_cancel_one [simp]: "surface (fold cancel_one ts w) = surface w"
  by (induction ts arbitrary: w) simp_all

lemma not_inCS_cancelForm: "\<not> inContentScript w \<Longrightarrow> snd (cancelForm ts w) = w"
  by (auto simp: cancelForm_def inContentScript_def)

lemma surface_cancelForm [simp]: "surface (snd (cancelForm ts w)) = surface w"
  by (cases "inContentScript w") (simp_all add: cancelForm_snd not_inCS_cancelForm)

lemma surface_registerForm [simp]: "surface (snd (registerForm t d w)) = surface w"
  by (simp add: registerForm_def pDefer_def Let_def surface_emit split: option.splits)
     (simp add: surface_def)

lemma surface_resolveForm [simp]: "surface (snd (resolveForm t v w)) = surface w"
  by (simp add: resolveForm_def unregisterForm_def split: option.splits)

lemma surface_apply_op [simp]: "surface (apply_op c w) = surface w"
  by (cases c) simp_all

lemma surface_fold_abort_listeners [simp]: "surface (fold run_abort_listener ls w) = surface w"
proof (induction ls arbitrary: w)
  case Nil
  show ?case by simp
next
  case (Cons l ls)
  then show ?case by (cases l) simp
qed

lemma surface_signal_abort [simp]: "surface (signal_abort s w) = surface w"
  by (simp add: signal_abort_def)

lemma surface_addAbortListener [simp]: "surface (addAbortListener r l w) = surface w"
  by (simp add: addAbortListener_def split: option.splits)

lemma surface_run_controller_listener:
  "surface (run_controller_listener l w) =
     (controller w, panelHidingListeners w, creations (trace w), teardowns (trace w),
      hides (trace w) + 1, sidebar_shows (trace w))"
  by (cases l) (simp add: surface_emit)

lemma surface_fold_controller_listeners:
  "surface (fold run_controller_listener ls w) =
     (controller w, panelHidingListeners w, creations (trace w), teardowns (trace w),
      hides (trace w) + length ls, sidebar_shows (trace w))"
proof (induction ls arbitrary: w)
  case Nil
  show ?case by (simp add: surface_def)
next
  case (Cons l ls)
  have "surface (fold run_controller_listener (l # ls) w) =
        surface (fold run_controller_listener ls (run_controller_listener l w))"
    by simp
  also have "\<dots> = (controller w, panelHidingListeners w, creations (trace w),
      teardowns (trace w), hides (trace w) + length (l # ls), sidebar_shows (trace w))"
    using surface_run_controller_listener[of l w]
    by (simp add: Cons.IH) (simp add: surface_def)
  finally show ?case .
qed

lemma surface_controller_abort:
  "surface (controller_abort w) =
     (case controller w of
        None \<Rightarrow> surface w
      | Some c \<Rightarrow>
          if c_aborted c then surface w
          else (Some (c\<lparr>c_aborted := True\<rparr>), [], creations (trace w),
                teardowns (trace w) + 1, hides (trace w) + length (c_listeners c),
                sidebar_shows (trace w)))"
  using surface_emit[of ControllerAbortEvent]
  by (simp add: controller_abort_def surface_fold_controller_listeners split: option.splits)
     (simp add: surface_def emit_def creations_def teardowns_def hides_def sidebar_shows_def)

lemma controller_controller_abort:
  "controller (controller_abort w) =
     (case controller w of None \<Rightarrow> None | Some c \<Rightarrow> Some (c\<lparr>c_aborted := True\<rparr>))"
  using surface_controller_abort[of w]
  by (auto simp: surface_def split: option.splits if_splits)

lemma controller_abort_idem: "controller_abort (controller_abort w) = controller_abort w"
proof (cases "controller w")
  case None
  then show ?thesis by (simp add: controller_abort_def)
next
  case (Some c)
  have "controller (controller_abort w) = Some (c\<lparr>c_aborted := True\<rparr>)"
    by (simp add: controller_controller_abort Some)
  then show ?thesis by (simp add: controller_abort_def[of "controller_abort w"])
qed

lemma fold_window_listeners:
  "fold run_window_listener ls w = (if ls = [] then w else controller_abort w)"
proof (induction ls arbitrary: w)
  case Nil
  show ?case by simp
next
  case (Cons l ls)
  show ?case by (cases l) (simp add: Cons.IH controller_abort_idem)
qed

lemma panel_hiding_eq:
  "panel_hiding w = (if panelHidingListeners w = [] then w else controller_abort w)"
  by (simp add: panel_hiding_def fold_window_listeners)

lemma shown_controller_abort:
  assumes "shown C T H S (surface w)"
  shows "torn C T H S (surface (controller_abort w))"
proof -
  from assms obtain c pl where
    s: "surface w = (Some c, pl, C + 1, T + (if c_aborted c then 1 else 0),
          H + (if c_aborted c then length (c_listeners c) else 0), S + length (c_listeners c))"
    and l: "length (c_listeners c) \<le> 1"
    unfolding shown_def by blast
  from s have c: "controller w = Some c" and pl: "panelHidingListeners w = pl"
    and cr: "creations (trace w) = C + 1"
    and td: "teardowns (trace w) = T + (if c_aborted c then 1 else 0)"
    and hi: "hides (trace w) = H + (if c_aborted c then length (c_listeners c) else 0)"
    and sb: "sidebar_shows (trace w) = S + length (c_listeners c)"
    by (simp_all add: surface_def)
  show ?thesis
  proof (cases "c_aborted c")
    case True
    then have "surface (controller_abort w) = surface w"
      by (simp add: surface_controller_abort c)
    then show ?thesis using s l True unfolding torn_def by auto
  next
    case False
    then have "surface (controller_abort w) =
        (Some (c\<lparr>c_aborted := True\<rparr>), [], C + 1, T + 1, H + length (c_listeners c),
         S + length (c_listeners c))"
      by (simp add: surface_controller_abort c cr td hi sb)
    then show ?thesis using l unfolding torn_def by auto
  qed
qed

lemma torn_shown: "torn C T H S \<sigma> \<Longrightarrow> shown C T H S \<sigma>"
  by (auto simp: torn_def shown_def)

lemma torn_controller_abort:
  "torn C T H S (surface w) \<Longrightarrow> torn C T H S (surface (controller_abort w))"
  by (rule shown_controller_abort[OF torn_shown])

lemma shown_panel_hiding:
  "shown C T H S (surface w) \<Longrightarrow> shown C T H S (surface (panel_hiding w))"
  by (simp add: panel_hiding_eq torn_shown[OF shown_controller_abort])

lemma torn_panel_hiding:
  "torn C T H S (surface w) \<Longrightarrow> torn C T H S (surface (panel_hiding w))"
  by (simp add: panel_hiding_eq torn_controller_abort)

lemma unstarted_panel_hiding:
  "unstarted C T H S (surface w) \<Longrightarrow> surface (panel_hiding w) = surface w"
  by (auto simp: unstarted_def panel_hiding_eq surface_def)

lemma surface_inv_panel_hiding:
  "surface_inv C T H S (f, w) \<Longrightarrow> surface_inv C T H S (f, panel_hiding w)"
proof (cases f)
  case (AwaitCreateFrameSource a b c)
  assume "surface_inv C T H S (f, w)"
  with AwaitCreateFrameSource show ?thesis
    by (simp add: unstarted_panel_hiding unstarted_def)
next
  case (AwaitEnsureSidebar a b c)
  assume "surface_inv C T H S (f, w)"
  with AwaitEnsureSidebar show ?thesis
    by (simp add: unstarted_panel_hiding unstarted_def)
next
  case (AwaitRegisterForm p)
  assume "surface_inv C T H S (f, w)"
  with AwaitRegisterForm show ?thesis by (simp add: shown_panel_hiding)
next
  case (Returned v)
  assume "surface_inv C T H S (f, w)"
  with Returned show ?thesis by (simp add: torn_panel_hiding)
next
  case (Thrown e)
  assume "surface_inv C T H S (f, w)"
  with Thrown show ?thesis
    by (auto simp: torn_panel_hiding unstarted_panel_hiding)
qed

lemma surface_inv_cong:
  "surface w' = surface w \<Longrightarrow> surface_inv C T H S (f, w) \<Longrightarrow> surface_inv C T H S (f, w')"
  by (cases f) simp_all

lemma surface_awaitRegisterForm [simp]:
  "surface (snd (awaitRegisterForm n d w)) = surface w"
proof -
  have "surface (snd (registerForm n d w)) = surface w" by simp
  then show ?thesis
    by (cases "registerForm n d w") (auto simp: awaitRegisterForm_def split: sum.splits)
qed

lemma fst_awaitRegisterForm: "\<exists>p. fst (awaitRegisterForm n d w) = AwaitRegisterForm p"
  by (cases "registerForm n d w") (auto simp: awaitRegisterForm_def split: sum.splits)

lemma surface_inv_awaitRegisterForm:
  "shown C T H S (surface w) \<Longrightarrow> surface_inv C T H S (awaitRegisterForm n d w)"
proof -
  assume s: "shown C T H S (surface w)"
  obtain p where p: "fst (awaitRegisterForm n d w) = AwaitRegisterForm p"
    using fst_awaitRegisterForm by blast
  have "awaitRegisterForm n d w = (AwaitRegisterForm p, snd (awaitRegisterForm n d w))"
    using p by (simp add: prod_eq_iff)
  then show ?thesis using s by (metis surface_inv.simps(3) surface_awaitRegisterForm)
qed

lemma surface_inv_afterCreateFrameSource:
  assumes "surface w = (None, [], C, T, H, S)"
  shows "surface_inv C T H S (afterCreateFrameSource arg opts n target w)"
proof -
  let ?w1 = "addAbortListener (abortSignal opts) (CancelFormListener n) w"
  let ?w2 = "?w1\<lparr>controller := Some \<lparr>c_aborted = False, c_listeners = []\<rparr>\<rparr>"
  have s1: "surface ?w1 = (None, [], C, T, H, S)" using assms by simp
  have s2: "surface ?w2 = (Some \<lparr>c_aborted = False, c_listeners = []\<rparr>, [], C, T, H, S)"
    using s1 by (simp add: surface_def)
  have s3: "shown C T H S (surface (emit (ShowModal u) ?w2))" for u
    using s2 by (simp add: surface_emit shown_def) (simp add: surface_def)
  show ?thesis
    unfolding afterCreateFrameSource_def Let_def
    using s2 s3 by (simp add: surface_inv_awaitRegisterForm)
qed

lemma surface_inv_afterEnsureSidebar:
  assumes "surface w = (Some \<lparr>c_aborted = False, c_listeners = []\<rparr>, [], C, T, H, S)"
  shows "surface_inv C T H S (afterEnsureSidebar opts n d w)"
proof -
  let ?w1 = "emit (ShowSidebarForm (extensionId opts) n d) w"
  let ?w2 = "addPanelHidingListener AbortControllerListener ?w1"
  let ?w3 = "addControllerListener (HideAndCancelListener n) ?w2"
  have s1: "surface ?w1 = (Some \<lparr>c_aborted = False, c_listeners = []\<rparr>, [], C + 1, T, H, S + 1)"
    using assms by (simp add: surface_emit) (simp add: surface_def)
  have s2: "surface ?w2 =
      (Some \<lparr>c_aborted = False, c_listeners = []\<rparr>, [AbortControllerListener], C + 1, T, H, S + 1)"
    using s1 by (simp add: addPanelHidingListener_def surface_def)
  have s3: "surface ?w3 =
      (Some \<lparr>c_aborted = False, c_listeners = [HideAndCancelListener n]\<rparr>,
       [AbortControllerListener], C + 1, T, H, S + 1)"
    using s2 by (simp add: addControllerListener_def surface_def)
  have "shown C T H S (surface ?w3)"
    unfolding s3 by (simp add: shown_def)
  then show ?thesis
    unfolding afterEnsureSidebar_def Let_def by (rule surface_inv_awaitRegisterForm)
qed

lemma surface_inv_afterRegisterForm:
  assumes "shown C T H S (surface w)"
  shows "surface_inv C T H S (afterRegisterForm p w)"
  using assms shown_controller_abort[OF assms]
  by (simp add: afterRegisterForm_def split: settlement.splits)

lemma surface_inv_step:
  "surface_inv C T H S cfg \<Longrightarrow> surface_inv C T H S (step e cfg)"
proof -
  assume inv: "surface_inv C T H S cfg"
  obtain f w where cfg: "cfg = (f, w)" by (cases cfg)
  show ?thesis
  proof (cases e)
    case (GotThisFrame r)
    show ?thesis
    proof (cases f)
      case (AwaitCreateFrameSource arg opts n)
      with inv cfg GotThisFrame show ?thesis
        by (cases r) (simp_all add: surface_inv_afterCreateFrameSource unstarted_def)
    qed (use inv cfg GotThisFrame in simp_all)
  next
    case (SidebarEnsured r)
    show ?thesis
    proof (cases f)
      case (AwaitEnsureSidebar opts n d)
      with inv cfg SidebarEnsured show ?thesis
        by (cases r) (simp_all add: surface_inv_afterEnsureSidebar unstarted_def)
    qed (use inv cfg SidebarEnsured in simp_all)
  next
    case Continue
    show ?thesis
    proof (cases f)
      case (AwaitRegisterForm p)
      with inv cfg Continue show ?thesis by (simp add: surface_inv_afterRegisterForm)
    qed (use inv cfg Continue in simp_all)
  next
    case (CallerAbort s)
    have "surface_inv C T H S (f, signal_abort s w)"
      by (rule surface_inv_cong[OF surface_signal_abort]) (use inv cfg in simp)
    with cfg CallerAbort show ?thesis by simp
  next
    case PanelHiding
    with inv cfg show ?thesis by (simp add: surface_inv_panel_hiding)
  next
    case (Call c)
    have "surface_inv C T H S (f, apply_op c w)"
      by (rule surface_inv_cong[OF surface_apply_op]) (use inv cfg in simp)
    with cfg Call show ?thesis by simp
  qed
qed

lemma surface_inv_run: "surface_inv C T H S cfg \<Longrightarrow> surface_inv C T H S (run es cfg)"
  unfolding run_def by (induction es arbitrary: cfg) (simp_all add: surface_inv_step)

lemma surface_inv_transform:
  assumes "controller w = None" "panelHidingListeners w = []"
  shows "surface_inv (creations (trace w)) (teardowns (trace w)) (hides (trace w))
           (sidebar_shows (trace w)) (transform arg opts n w)"
  using assms by (simp add: transform_def surface_def unstarted_def split: option.splits)

subsection \<open>Teardown of the rendering surface\<close>

text \<open>
  What the \<^verbatim>\<open>finally\<close> block guarantees. Take a call of \<^verbatim>\<open>transform\<close> that starts with no
  controller and no listener for the hiding of the panel, and let anything happen in any
  order: awaited promises settle or fail, callers abort, the panel hides, protocol
  operations arrive. At every moment at most one surface has been shown for the call
  and at most one teardown signal (the \<^verbatim>\<open>abort\<close> event of the scoped controller) has been
  delivered, never before the surface was shown. When the call has returned, exactly one
  surface was shown, exactly one teardown signal was delivered, the controller is
  aborted, and a form shown in the sidebar was hidden exactly once. When the call has
  thrown, either the same holds, or the call failed before showing anything and then
  nothing was torn down.
\<close>

lemma exit_teardown_once:
  assumes fresh: "controller w = None" "panelHidingListeners w = []"
    and fin: "run es (transform arg opts n w) = (f, w')"
  shows "creations (trace w') \<le> creations (trace w) + 1 \<and>
         teardowns (trace w') + creations (trace w) \<le> teardowns (trace w) + creations (trace w') \<and>
         teardowns (trace w) \<le> teardowns (trace w') \<and>
         ((\<exists>v. f = Returned v) \<longrightarrow>
            creations (trace w') = creations (trace w) + 1 \<and>
            teardowns (trace w') = teardowns (trace w) + 1 \<and>
            (\<exists>c. controller w' = Some c \<and> c_aborted c) \<and>
            hides (trace w') + sidebar_shows (trace w) =
              hides (trace w) + sidebar_shows (trace w')) \<and>
         ((\<exists>e. f = Thrown e) \<longrightarrow>
            (creations (trace w') = creations (trace w) + 1 \<and>
             teardowns (trace w') = teardowns (trace w) + 1 \<and>
             (\<exists>c. controller w' = Some c \<and> c_aborted c) \<and>
             hides (trace w') + sidebar_shows (trace w) =
               hides (trace w) + sidebar_shows (trace w')) \<or>
            (creations (trace w') = creations (trace w) \<and>
             teardowns (trace w') = teardowns (trace w) \<and>
             hides (trace w') = hides (trace w) \<and>
             sidebar_shows (trace w') = sidebar_shows (trace w)))"
proof -
  let ?C = "creations (trace w)" and ?T = "teardowns (trace w)"
  let ?H = "hides (trace w)" and ?S = "sidebar_shows (trace w)"
  have inv: "surface_inv ?C ?T ?H ?S (f, w')"
    using surface_inv_run[OF surface_inv_transform[OF fresh], of es arg opts n] fin by simp
  show ?thesis
  proof (cases f)
    case (AwaitCreateFrameSource a b c)
    with inv show ?thesis by (simp add: surface_def)
  next
    case (AwaitEnsureSidebar a b c)
    with inv show ?thesis by (simp add: surface_def)
  next
    case (AwaitRegisterForm p)
    with inv show ?thesis by (auto simp: shown_def surface_def)
  next
    case (Returned v)
    with inv show ?thesis by (auto simp: torn_def surface_def)
  next
    case (Thrown e)
    with inv show ?thesis by (auto simp: torn_def unstarted_def surface_def)
  qed
qed

text \<open>
  The modal is shown, the caller aborts, and the call throws the \<^verbatim>\<open>CancelError\<close> with one
  surface shown and one teardown signal delivered.
\<close>

lemma exit_teardown_once_example:
  "controller callerWorld = None \<and> panelHidingListeners callerWorld = [] \<and>
   abortPath = run [GotThisFrame (Inr ''{}''), CallerAbort 0, Continue]
                 (transform modalArg callerOptions ''n'' callerWorld) \<and>
   fst abortPath = Thrown (CancelError ''User cancelled the action'') \<and>
   creations (trace callerWorld) = 0 \<and> teardowns (trace callerWorld) = 0 \<and>
   creations (trace (snd abortPath)) = 1 \<and> teardowns (trace (snd abortPath)) = 1 \<and>
   controller (snd abortPath) = Some \<lparr>c_aborted = True, c_listeners = []\<rparr>"
proof -
  have h1: "controller callerWorld = None" by (simp add: callerWorld_def contentScript_def)
  have h2: "panelHidingListeners callerWorld = []"
    by (simp add: callerWorld_def contentScript_def)
  have h3: "run [GotThisFrame (Inr ''{}''), CallerAbort 0, Continue]
              (transform modalArg callerOptions ''n'' callerWorld) = (fst abortPath, snd abortPath)"
    by (simp add: abortPath_def)
  have f: "fst abortPath = Thrown (CancelError ''User cancelled the action'')"
    by code_simp
  have c: "controller (snd abortPath) = Some \<lparr>c_aborted = True, c_listeners = []\<rparr>"
    by code_simp
  have t0: "trace callerWorld = []" by (simp add: callerWorld_def contentScript_def)
  have t1: "trace (snd abortPath) =
      [ShowModal \<lparr>href = ''chrome-extension://pixiebrix/ephemeralForm.html'',
                  searchParams = [(''nonce'', ''n''), (''opener'', ''{}''), (''mode'', ''modal'')]\<rparr>,
       DeferredReject 0 (CancelError ''User cancelled the action''),
       ControllerAbortEvent]"
    by code_simp
  show ?thesis
    using exit_teardown_once[OF h1 h2 h3]
    by (simp add: h1 h2 f c t0 t1 abortPath_def[symmetric] creations_def teardowns_def)
qed

text \<open>
  And the call does leave: once the promise of \<^verbatim>\<open>registerForm\<close> has settled, the next
  turn of the call returns the value or throws the error, and with it the controller is
  aborted, so that one surface and one teardown signal are counted.
\<close>

lemma settled_call_exits:
  assumes fresh: "controller w = None" "panelHidingListeners w = []"
    and fin: "run es (transform arg opts n w) = (AwaitRegisterForm p, w')"
    and p: "p < length (promises w')" "promises w' ! p \<noteq> Pending"
  shows "((\<exists>v. promises w' ! p = Fulfilled v \<and>
              fst (step Continue (AwaitRegisterForm p, w')) = Returned v) \<or>
          (\<exists>e. promises w' ! p = Rejected e \<and>
              fst (step Continue (AwaitRegisterForm p, w')) = Thrown e)) \<and>
         snd (step Continue (AwaitRegisterForm p, w')) = controller_abort w' \<and>
         creations (trace (controller_abort w')) = creations (trace w) + 1 \<and>
         teardowns (trace (controller_abort w')) = teardowns (trace w) + 1 \<and>
         (\<exists>c. controller (controller_abort w') = Some c \<and> c_aborted c) \<and>
         hides (trace (controller_abort w')) + sidebar_shows (trace w) =
           hides (trace w) + sidebar_shows (trace (controller_abort w'))"
proof -
  let ?C = "creations (trace w)" and ?T = "teardowns (trace w)"
  let ?H = "hides (trace w)" and ?S = "sidebar_shows (trace w)"
  have "surface_inv ?C ?T ?H ?S (AwaitRegisterForm p, w')"
    using surface_inv_run[OF surface_inv_transform[OF fresh], of es arg opts n] fin by simp
  then have "shown ?C ?T ?H ?S (surface w')" by simp
  then have t: "torn ?C ?T ?H ?S (surface (controller_abort w'))"
    by (rule shown_controller_abort)
  have st: "step Continue (AwaitRegisterForm p, w') =
      (case promises w' ! p of
         Pending \<Rightarrow> (AwaitRegisterForm p, w')
       | Fulfilled v \<Rightarrow> (Returned v, controller_abort w')
       | Rejected e \<Rightarrow> (Thrown e, controller_abort w'))"
    using p by (simp add: afterRegisterForm_def)
  have a: "(\<exists>v. promises w' ! p = Fulfilled v \<and>
              fst (step Continue (AwaitRegisterForm p, w')) = Returned v) \<or>
          (\<exists>e. promises w' ! p = Rejected e \<and>
              fst (step Continue (AwaitRegisterForm p, w')) = Thrown e)"
    using p(2) unfolding st by (cases "promises w' ! p") simp_all
  have b: "snd (step Continue (AwaitRegisterForm p, w')) = controller_abort w'"
    using p(2) unfolding st by (cases "promises w' ! p") simp_all
  from t have c: "creations (trace (controller_abort w')) = ?C + 1 \<and>
         teardowns (trace (controller_abort w')) = ?T + 1 \<and>
         (\<exists>c. controller (controller_abort w') = Some c \<and> c_aborted c) \<and>
         hides (trace (controller_abort w')) + ?S =
           ?H + sidebar_shows (trace (controller_abort w'))"
    by (auto simp: torn_def surface_def)
  show ?thesis using a b c by blast
qed

subsection \<open>The steps of \<^verbatim>\<open>transform\<close> in the content script\<close>

lemma expectContext_emit [simp]: "expectContext (emit e w) = expectContext w"
  by (simp add: emit_def)

lemma expectContext_addAbortListener [simp]:
  "expectContext (addAbortListener r l w) = expectContext w"
  by (simp add: addAbortListener_def split: option.splits)

lemma expectContext_addPanelHidingListener [simp]:
  "expectContext (addPanelHidingListener l w) = expectContext w"
  by (simp add: addPanelHidingListener_def split: option.splits)

lemma expectContext_addControllerListener [simp]:
  "expectContext (addControllerListener l w) = expectContext w"
  by (simp add: addControllerListener_def split: option.splits)

lemma awaitRegisterForm_inCS:
  "inContentScript w \<Longrightarrow>
   awaitRegisterForm n d w = (AwaitRegisterForm (length (promises w)), snd (registerForm n d w))"
  using registerForm_fst[of w n d]
  by (cases "registerForm n d w") (simp add: awaitRegisterForm_def)

lemma getURL_unchanged: "getURL (w\<lparr>controller := c\<rparr>) = getURL w"
  by simp

lemma mode_createFrameSource:
  "map_of (searchParams (createFrameSource n mode target base)) ''mode'' = Some mode"
  by (simp add: createFrameSource_def)

subsection \<open>Defaults of the arguments\<close>

text \<open>
  Claim C9. \<^verbatim>\<open>inputSchema\<close> requires \<^verbatim>\<open>schema\<close>, lets \<^verbatim>\<open>location\<close> be \<^verbatim>\<open>modal\<close> or
  \<^verbatim>\<open>sidebar\<close> only, and declares the defaults \<^verbatim>\<open>modal\<close>, \<^verbatim>\<open>true\<close> and \<^verbatim>\<open>"Submit"\<close>. A call of
  \<^verbatim>\<open>transform\<close> in the content script registers, under its nonce, a definition with the
  schema passed, with \<^verbatim>\<open>cancelable = true\<close> when \<^verbatim>\<open>cancelable\<close> is omitted and with
  \<^verbatim>\<open>submitCaption = "Submit"\<close> when \<^verbatim>\<open>submitCaption\<close> is omitted. When \<^verbatim>\<open>location\<close> is
  omitted the form is shown by \<^verbatim>\<open>showModal\<close>, on a frame whose \<^verbatim>\<open>mode\<close> is \<^verbatim>\<open>modal\<close>;
  when it is \<^verbatim>\<open>sidebar\<close> the same definition is shown by \<^verbatim>\<open>showSidebarForm\<close>.
\<close>

theorem transform_defaults:
  assumes cs: "inContentScript w"
    and c1: "step (GotThisFrame (Inr target)) (transform arg opts n w) = (f1, w1)"
    and c2: "step (SidebarEnsured (Inr ())) (f1, w1) = (f2, w2)"
  shows "member ''required'' inputSchema = Some (JArr [JStr ''schema'']) \<and>
         property ''location'' ''enum'' = Some (JArr [JStr ''modal'', JStr ''sidebar'']) \<and>
         property ''location'' ''default'' = Some (JStr ''modal'') \<and>
         property ''cancelable'' ''default'' = Some (JBool True) \<and>
         property ''submitCaption'' ''default'' = Some (JStr ''Submit'') \<and>
         (location_arg arg \<noteq> Some ''sidebar'' \<longrightarrow>
            (\<exists>form. forms w1 n = Some form \<and> f1 = AwaitRegisterForm (registration form) \<and>
               schema (definition' form) = schema_arg arg \<and>
               (cancelable_arg arg = None \<longrightarrow> cancelable (definition' form) = True) \<and>
               (submitCaption_arg arg = None \<longrightarrow>
                  submitCaption (definition' form) = ''Submit'')) \<and>
            (\<exists>url. filter is_creation (trace w1) = filter is_creation (trace w) @ [ShowModal url] \<and>
               (location_arg arg = None \<longrightarrow>
                  map_of (searchParams url) ''mode'' = Some ''modal''))) \<and>
         (location_arg arg = Some ''sidebar'' \<longrightarrow>
            (\<exists>form. forms w2 n = Some form \<and> f2 = AwaitRegisterForm (registration form) \<and>
               schema (definition' form) = schema_arg arg \<and>
               (cancelable_arg arg = None \<longrightarrow> cancelable (definition' form) = True) \<and>
               (submitCaption_arg arg = None \<longrightarrow>
                  submitCaption (definition' form) = ''Submit'') \<and>
               filter is_creation (trace w2) =
                 filter is_creation (trace w) @
                   [ShowSidebarForm (extensionId opts) n (definition' form)]))"
proof (intro conjI impI)
  show "member ''required'' inputSchema = Some (JArr [JStr ''schema''])"
    by (simp add: inputSchema_def)
  show "property ''location'' ''enum'' = Some (JArr [JStr ''modal'', JStr ''sidebar''])"
    by (simp add: property_def inputSchema_def)
  show "property ''location'' ''default'' = Some (JStr ''modal'')"
    by (simp add: property_def inputSchema_def)
  show "property ''cancelable'' ''default'' = Some (JBool True)"
    by (simp add: property_def inputSchema_def)
  show "property ''submitCaption'' ''default'' = Some (JStr ''Submit'')"
    by (simp add: property_def inputSchema_def)
next
  assume loc: "location_arg arg \<noteq> Some ''sidebar''"
  let ?location = "case location_arg arg of None \<Rightarrow> ''modal'' | Some l \<Rightarrow> l"
  let ?url = "createFrameSource n ?location target (getURL w ''ephemeralForm.html'')"
  let ?d = "\<lparr>schema = schema_arg arg,
             uiSchema = (case uiSchema_arg arg of None \<Rightarrow> JObj [] | Some u \<Rightarrow> u),
             cancelable = (case cancelable_arg arg of None \<Rightarrow> True | Some c \<Rightarrow> c),
             submitCaption = (case submitCaption_arg arg of None \<Rightarrow> ''Submit'' | Some c \<Rightarrow> c)\<rparr>"
  let ?w0 = "emit (ShowModal ?url)
               ((addAbortListener (abortSignal opts) (CancelFormListener n) w)
                  \<lparr>controller := Some \<lparr>c_aborted = False, c_listeners = []\<rparr>\<rparr>)"
  have ne: "?location \<noteq> ''sidebar''" using loc by (cases "location_arg arg") auto
  have cs0: "inContentScript ?w0" using cs by (simp add: inContentScript_def)
  have "step (GotThisFrame (Inr target)) (transform arg opts n w) = awaitRegisterForm n ?d ?w0"
    using ne cs getURL_unchanged
    by (simp add: transform_def inCS_D afterCreateFrameSource_def Let_def addAbortListener_def
          split: option.splits)
  then have eq: "(f1, w1) = (AwaitRegisterForm (length (promises ?w0)), snd (registerForm n ?d ?w0))"
    using c1 by (simp add: awaitRegisterForm_inCS[OF cs0])
  have tr: "trace ?w0 = trace w @ [ShowModal ?url]"
    by (simp add: emit_def addAbortListener_def split: option.splits)
  show "\<exists>form. forms w1 n = Some form \<and> f1 = AwaitRegisterForm (registration form) \<and>
               schema (definition' form) = schema_arg arg \<and>
               (cancelable_arg arg = None \<longrightarrow> cancelable (definition' form) = True) \<and>
               (submitCaption_arg arg = None \<longrightarrow>
                  submitCaption (definition' form) = ''Submit'')"
    using eq by (simp add: registerForm_forms[OF cs0])
  have "filter is_creation (trace w1) = filter is_creation (trace w) @ [ShowModal ?url]"
    using eq by (simp add: registerForm_trace[OF cs0] tr)
  moreover have "location_arg arg = None \<longrightarrow> map_of (searchParams ?url) ''mode'' = Some ''modal''"
    by (simp add: mode_createFrameSource)
  ultimately show "\<exists>url. filter is_creation (trace w1) =
        filter is_creation (trace w) @ [ShowModal url] \<and>
        (location_arg arg = None \<longrightarrow> map_of (searchParams url) ''mode'' = Some ''modal'')"
    by (intro exI[of _ ?url] conjI)
next
  assume loc: "location_arg arg = Some ''sidebar''"
  let ?d = "\<lparr>schema = schema_arg arg,
             uiSchema = (case uiSchema_arg arg of None \<Rightarrow> JObj [] | Some u \<Rightarrow> u),
             cancelable = (case cancelable_arg arg of None \<Rightarrow> True | Some c \<Rightarrow> c),
             submitCaption = (case submitCaption_arg arg of None \<Rightarrow> ''Submit'' | Some c \<Rightarrow> c)\<rparr>"
  let ?w0 = "(addAbortListener (abortSignal opts) (CancelFormListener n) w)
               \<lparr>controller := Some \<lparr>c_aborted = False, c_listeners = []\<rparr>\<rparr>"
  have "step (GotThisFrame (Inr target)) (transform arg opts n w) =
          (AwaitEnsureSidebar opts n ?d, ?w0)"
    using loc cs by (simp add: transform_def inCS_D afterCreateFrameSource_def Let_def)
  with c1 have f1: "f1 = AwaitEnsureSidebar opts n ?d" and w1: "w1 = ?w0" by simp_all
  let ?w3 = "addControllerListener (HideAndCancelListener n)
               (addPanelHidingListener AbortControllerListener
                  (emit (ShowSidebarForm (extensionId opts) n ?d) w1))"
  have cs3: "inContentScript ?w3" using cs by (simp add: inContentScript_def w1)
  have "(f2, w2) = awaitRegisterForm n ?d ?w3"
    using c2 by (simp add: f1 afterEnsureSidebar_def Let_def)
  then have eq: "(f2, w2) = (AwaitRegisterForm (length (promises ?w3)), snd (registerForm n ?d ?w3))"
    by (simp add: awaitRegisterForm_inCS[OF cs3])
  have tr: "trace ?w3 = trace w @ [ShowSidebarForm (extensionId opts) n ?d]"
    by (simp add: w1 emit_def addAbortListener_def addPanelHidingListener_def
          addControllerListener_def split: option.splits)
  show "\<exists>form. forms w2 n = Some form \<and> f2 = AwaitRegisterForm (registration form) \<and>
               schema (definition' form) = schema_arg arg \<and>
               (cancelable_arg arg = None \<longrightarrow> cancelable (definition' form) = True) \<and>
               (submitCaption_arg arg = None \<longrightarrow>
                  submitCaption (definition' form) = ''Submit'') \<and>
               filter is_creation (trace w2) =
                 filter is_creation (trace w) @
                   [ShowSidebarForm (extensionId opts) n (definition' form)]"
    using eq by (simp add: registerForm_forms[OF cs3] registerForm_trace[OF cs3] tr)
qed

theorem transform_defaults_witness:
  "inContentScript callerWorld \<and>
   location_arg omittedArg \<noteq> Some ''sidebar'' \<and> location_arg omittedArg = None \<and>
   cancelable_arg omittedArg = None \<and> submitCaption_arg omittedArg = None \<and>
   forms (snd (step (GotThisFrame (Inr ''{}'')) (transform omittedArg callerOptions ''n'' callerWorld)))
     ''n'' =
     Some \<lparr>definition' = \<lparr>schema = JObj [(''type'', JStr ''object'')], uiSchema = JObj [],
                             cancelable = True, submitCaption = ''Submit''\<rparr>,
            registration = 0\<rparr> \<and>
   trace (snd (step (GotThisFrame (Inr ''{}'')) (transform omittedArg callerOptions ''n'' callerWorld))) =
     [ShowModal \<lparr>href = ''chrome-extension://pixiebrix/ephemeralForm.html'',
                 searchParams = [(''nonce'', ''n''), (''opener'', ''{}''), (''mode'', ''modal'')]\<rparr>] \<and>
   location_arg sidebarArg = Some ''sidebar'' \<and> cancelable_arg sidebarArg = None \<and>
   submitCaption_arg sidebarArg = None \<and>
   trace (snd (step (SidebarEnsured (Inr ()))
                 (step (GotThisFrame (Inr ''{}''))
                    (transform sidebarArg callerOptions ''n'' callerWorld)))) =
     [ShowSidebarForm ''extension'' ''n''
        \<lparr>schema = JObj [(''type'', JStr ''object'')], uiSchema = JObj [],
           cancelable = True, submitCaption = ''Submit''\<rparr>]"
proof -
  let ?m1 = "step (GotThisFrame (Inr ''{}'')) (transform omittedArg callerOptions ''n'' callerWorld)"
  let ?s1 = "step (GotThisFrame (Inr ''{}'')) (transform sidebarArg callerOptions ''n'' callerWorld)"
  have cs: "inContentScript callerWorld"
    by (simp add: inContentScript_def callerWorld_def contentScript_def)
  have m1: "?m1 = (fst ?m1, snd ?m1)" and s1: "?s1 = (fst ?s1, snd ?s1)" by simp_all
  have m2: "step (SidebarEnsured (Inr ())) (fst ?m1, snd ?m1) =
              (fst (step (SidebarEnsured (Inr ())) ?m1), snd (step (SidebarEnsured (Inr ())) ?m1))"
    and s2: "step (SidebarEnsured (Inr ())) (fst ?s1, snd ?s1) =
              (fst (step (SidebarEnsured (Inr ())) ?s1), snd (step (SidebarEnsured (Inr ())) ?s1))"
    by simp_all
  have e1: "forms (snd ?m1) ''n'' =
      Some \<lparr>definition' = \<lparr>schema = JObj [(''type'', JStr ''object'')], uiSchema = JObj [],
                              cancelable = True, submitCaption = ''Submit''\<rparr>,
             registration = 0\<rparr>"
    by code_simp
  have e2: "trace (snd ?m1) =
      [ShowModal \<lparr>href = ''chrome-extension://pixiebrix/ephemeralForm.html'',
                  searchParams = [(''nonce'', ''n''), (''opener'', ''{}''), (''mode'', ''modal'')]\<rparr>]"
    by code_simp
  have e3: "trace (snd (step (SidebarEnsured (Inr ())) ?s1)) =
      [ShowSidebarForm ''extension'' ''n''
         \<lparr>schema = JObj [(''type'', JStr ''object'')], uiSchema = JObj [],
            cancelable = True, submitCaption = ''Submit''\<rparr>]"
    by code_simp
  have a: "location_arg omittedArg = None" "cancelable_arg omittedArg = None"
    "submitCaption_arg omittedArg = None" "location_arg sidebarArg = Some ''sidebar''"
    "cancelable_arg sidebarArg = None" "submitCaption_arg sidebarArg = None"
    by (simp_all add: omittedArg_def sidebarArg_def modalArg_def)
  show ?thesis
    using transform_defaults[OF cs m1 m2] transform_defaults[OF cs s1 s2]
    by (simp add: cs e1 e2 e3 a)
qed

subsection \<open>Cancellation through the caller's signal\<close>

text \<open>
  Claim C4 at two failing inputs. First, \<^verbatim>\<open>transform\<close> is called for the sidebar with a
  caller's signal, and the signal aborts while \<^verbatim>\<open>ensureSidebar()\<close> is awaited. The
  listener runs \<^verbatim>\<open>cancelForm\<close> on a nonce that is not registered yet, which does nothing;
  the form is registered afterwards. The signal has fired before settlement, yet the call
  is still waiting on a pending promise, and when the form is submitted it returns the
  value instead of throwing the \<^verbatim>\<open>CancelError\<close>. Second, \<^verbatim>\<open>transform\<close> is called for the
  modal and the signal aborts right after the call, while \<^verbatim>\<open>createFrameSource\<close> is awaited:
  the listener is added to a signal that has fired already, the modal is shown, and the
  call waits on a pending promise.
\<close>

theorem abort_before_registration_is_lost:
  "lostAbort =
     run [GotThisFrame (Inr ''{}''), CallerAbort 0, SidebarEnsured (Inr ()), Continue]
       (transform sidebarArg callerOptions ''n'' callerWorld) \<and>
   abortSignal callerOptions = Some 0 \<and>
   aborted (abortSignals (snd lostAbort) ! 0) \<and>
   listeners (abortSignals (snd lostAbort) ! 0) = [CancelFormListener ''n''] \<and>
   fst lostAbort = AwaitRegisterForm 0 \<and>
   promises (snd lostAbort) = [Pending] \<and>
   fst (run [Call (ResolveForm ''n'' JNull), Continue] lostAbort) = Returned JNull \<and>
   earlyAbort =
     run [CallerAbort 0, GotThisFrame (Inr ''{}''), Continue]
       (transform modalArg callerOptions ''n'' callerWorld) \<and>
   abortSignals (snd earlyAbort) =
     [\<lparr>aborted = True, listeners = [CancelFormListener ''n'']\<rparr>] \<and>
   fst earlyAbort = AwaitRegisterForm 0 \<and>
   promises (snd earlyAbort) = [Pending] \<and>
   creations (trace (snd earlyAbort)) = 1 \<and> teardowns (trace (snd earlyAbort)) = 0"
proof (intro conjI)
  show "lostAbort =
     run [GotThisFrame (Inr ''{}''), CallerAbort 0, SidebarEnsured (Inr ()), Continue]
       (transform sidebarArg callerOptions ''n'' callerWorld)"
    by (rule lostAbort_def)
  show "abortSignal callerOptions = Some 0" by (simp add: callerOptions_def)
  show "aborted (abortSignals (snd lostAbort) ! 0)" by code_simp
  show "listeners (abortSignals (snd lostAbort) ! 0) = [CancelFormListener ''n'']" by code_simp
  show "fst lostAbort = AwaitRegisterForm 0" by code_simp
  show "promises (snd lostAbort) = [Pending]" by code_simp
  show "fst (run [Call (ResolveForm ''n'' JNull), Continue] lostAbort) = Returned JNull"
    by code_simp
  show "earlyAbort =
     run [CallerAbort 0, GotThisFrame (Inr ''{}''), Continue]
       (transform modalArg callerOptions ''n'' callerWorld)"
    by (rule earlyAbort_def)
  show "abortSignals (snd earlyAbort) =
     [\<lparr>aborted = True, listeners = [CancelFormListener ''n'']\<rparr>]"
    by code_simp
  show "fst earlyAbort = AwaitRegisterForm 0" by code_simp
  show "promises (snd earlyAbort) = [Pending]" by code_simp
  show "creations (trace (snd earlyAbort)) = 1" by code_simp
  show "teardowns (trace (snd earlyAbort)) = 0" by code_simp
qed

subsection \<open>Teardown after a caller's abort\<close>

text \<open>
  Claim C7 at two failing inputs. First, \<^verbatim>\<open>transform\<close> is called for the modal with a
  caller's signal and the caller aborts right after the call (the scenario of the
  specification: call, then cancel at once through the abort path). The signal has fired
  before settlement, the modal is shown, and no teardown signal is delivered: the
  controller is not aborted, the call has not left its \<^verbatim>\<open>try\<close> block, and further aborts
  and turns of the call change nothing. Second, the sidebar is asked for and the caller
  aborts while \<^verbatim>\<open>ensureSidebar()\<close> is awaited: the form is shown in the sidebar and is
  neither hidden nor torn down.
\<close>

theorem aborted_call_keeps_its_surface:
  "earlyAbort =
     run [CallerAbort 0, GotThisFrame (Inr ''{}''), Continue]
       (transform modalArg callerOptions ''n'' callerWorld) \<and>
   abortSignal callerOptions = Some 0 \<and>
   aborted (abortSignals (snd earlyAbort) ! 0) \<and>
   fst earlyAbort = AwaitRegisterForm 0 \<and>
   promises (snd earlyAbort) = [Pending] \<and>
   trace (snd earlyAbort) =
     [ShowModal \<lparr>href = ''chrome-extension://pixiebrix/ephemeralForm.html'',
                 searchParams = [(''nonce'', ''n''), (''opener'', ''{}''), (''mode'', ''modal'')]\<rparr>] \<and>
   creations (trace (snd earlyAbort)) = 1 \<and>
   teardowns (trace (snd earlyAbort)) = 0 \<and>
   controller (snd earlyAbort) = Some \<lparr>c_aborted = False, c_listeners = []\<rparr> \<and>
   fst (run [CallerAbort 0, Continue, CallerAbort 0, Continue] earlyAbort) = AwaitRegisterForm 0 \<and>
   teardowns (trace (snd (run [CallerAbort 0, Continue, CallerAbort 0, Continue] earlyAbort))) = 0 \<and>
   lostAbort =
     run [GotThisFrame (Inr ''{}''), CallerAbort 0, SidebarEnsured (Inr ()), Continue]
       (transform sidebarArg callerOptions ''n'' callerWorld) \<and>
   aborted (abortSignals (snd lostAbort) ! 0) \<and>
   fst lostAbort = AwaitRegisterForm 0 \<and>
   trace (snd lostAbort) =
     [ShowSidebarForm ''extension'' ''n''
        \<lparr>schema = JObj [(''type'', JStr ''object'')], uiSchema = JObj [],
           cancelable = True, submitCaption = ''Submit''\<rparr>] \<and>
   creations (trace (snd lostAbort)) = 1 \<and>
   teardowns (trace (snd lostAbort)) = 0 \<and>
   hides (trace (snd lostAbort)) = 0 \<and>
   controller (snd lostAbort) =
     Some \<lparr>c_aborted = False, c_listeners = [HideAndCancelListener ''n'']\<rparr>"
proof (intro conjI)
  show "earlyAbort =
     run [CallerAbort 0, GotThisFrame (Inr ''{}''), Continue]
       (transform modalArg callerOptions ''n'' callerWorld)"
    by (rule earlyAbort_def)
  show "abortSignal callerOptions = Some 0" by (simp add: callerOptions_def)
  show "aborted (abortSignals (snd earlyAbort) ! 0)" by code_simp
  show "fst earlyAbort = AwaitRegisterForm 0" by code_simp
  show "promises (snd earlyAbort) = [Pending]" by code_simp
  show "trace (snd earlyAbort) =
     [ShowModal \<lparr>href = ''chrome-extension://pixiebrix/ephemeralForm.html'',
                 searchParams = [(''nonce'', ''n''), (''opener'', ''{}''), (''mode'', ''modal'')]\<rparr>]"
    by code_simp
  show "creations (trace (snd earlyAbort)) = 1" by code_simp
  show "teardowns (trace (snd earlyAbort)) = 0" by code_simp
  show "controller (snd earlyAbort) = Some \<lparr>c_aborted = False, c_listeners = []\<rparr>"
    by code_simp
  show "fst (run [CallerAbort 0, Continue, CallerAbort 0, Continue] earlyAbort) =
          AwaitRegisterForm 0"
    by code_simp
  show "teardowns (trace (snd (run [CallerAbort 0, Continue, CallerAbort 0, Continue]
          earlyAbort))) = 0"
    by code_simp
  show "lostAbort =
     run [GotThisFrame (Inr ''{}''), CallerAbort 0, SidebarEnsured (Inr ()), Continue]
       (transform sidebarArg callerOptions ''n'' callerWorld)"
    by (rule lostAbort_def)
  show "aborted (abortSignals (snd lostAbort) ! 0)" by code_simp
  show "fst lostAbort = AwaitRegisterForm 0" by code_simp
  show "trace (snd lostAbort) =
     [ShowSidebarForm ''extension'' ''n''
        \<lparr>schema = JObj [(''type'', JStr ''object'')], uiSchema = JObj [],
           cancelable = True, submitCaption = ''Submit''\<rparr>]"
    by code_simp
  show "creations (trace (snd lostAbort)) = 1" by code_simp
  show "teardowns (trace (snd lostAbort)) = 0" by code_simp
  show "hides (trace (snd lostAbort)) = 0" by code_simp
  show "controller (snd lostAbort) =
     Some \<lparr>c_aborted = False, c_listeners = [HideAndCancelListener ''n'']\<rparr>"
    by code_simp
qed

subsection \<open>Listeners after settlement\<close>

text \<open>
  Claim C8 at a failing input. \<^verbatim>\<open>transform\<close> is called for the modal with a caller's
  signal that has no listener. After the form was submitted and the call has returned,
  the listener that the call added is still registered on the caller's signal (no
  listener for the hiding of the panel is left). The same holds after the caller has
  aborted and the call has thrown.
\<close>

theorem caller_abort_listener_stays:
  "resolvedPath =
     run [GotThisFrame (Inr ''{}''), Call (ResolveForm ''n'' JNull), Continue]
       (transform modalArg callerOptions ''n'' callerWorld) \<and>
   abortSignals callerWorld = [\<lparr>aborted = False, listeners = []\<rparr>] \<and>
   fst resolvedPath = Returned JNull \<and>
   forms (snd resolvedPath) ''n'' = None \<and>
   panelHidingListeners (snd resolvedPath) = [] \<and>
   abortSignals (snd resolvedPath) =
     [\<lparr>aborted = False, listeners = [CancelFormListener ''n'']\<rparr>] \<and>
   fst abortPath = Thrown (CancelError ''User cancelled the action'') \<and>
   abortSignals (snd abortPath) =
     [\<lparr>aborted = True, listeners = [CancelFormListener ''n'']\<rparr>]"
proof (intro conjI)
  show "resolvedPath =
     run [GotThisFrame (Inr ''{}''), Call (ResolveForm ''n'' JNull), Continue]
       (transform modalArg callerOptions ''n'' callerWorld)"
    by (rule resolvedPath_def)
  show "abortSignals callerWorld = [\<lparr>aborted = False, listeners = []\<rparr>]"
    by (simp add: callerWorld_def)
  show "fst resolvedPath = Returned JNull" by code_simp
  show "forms (snd resolvedPath) ''n'' = None" by code_simp
  show "panelHidingListeners (snd resolvedPath) = []" by code_simp
  show "abortSignals (snd resolvedPath) =
     [\<lparr>aborted = False, listeners = [CancelFormListener ''n'']\<rparr>]"
    by code_simp
  show "fst abortPath = Thrown (CancelError ''User cancelled the action'')" by code_simp
  show "abortSignals (snd abortPath) =
     [\<lparr>aborted = True, listeners = [CancelFormListener ''n'']\<rparr>]"
    by code_simp
qed

subsection \<open>What the cancellation sources do once the form is registered\<close>

text \<open>
  While the form of the call is registered, an abort of the caller's signal and the
  hiding of the panel both make the call throw the \<^verbatim>\<open>CancelError\<close>.
\<close>

lemma inCS_abortSignals_update [simp]:
  "inContentScript (w\<lparr>abortSignals := ss\<rparr>) = inContentScript w"
  by (simp add: inContentScript_def)

lemma store_ok_abortSignals_update [simp]:
  "store_ok (w\<lparr>abortSignals := ss\<rparr>) = store_ok w"
  by (simp add: store_ok_def)

lemma fold_abort_listeners_cancel:
  "inContentScript w \<Longrightarrow>
   fold run_abort_listener ls w = fold cancel_one (map listener_nonce ls) w"
proof (induction ls arbitrary: w)
  case Nil
  show ?case by simp
next
  case (Cons l ls)
  then show ?case by (cases l) (simp add: cancelForm_snd)
qed

lemma length_promises_cancel_one [simp]:
  "length (promises (cancel_one t w)) = length (promises w)"
  by (simp add: promises_cancel_one split: option.splits)

lemma length_promises_fold_cancel_one [simp]:
  "length (promises (fold cancel_one ts w)) = length (promises w)"
  by (induction ts arbitrary: w) simp_all

lemma afterRegisterForm_rejected:
  "p < length (promises w) \<Longrightarrow> promises w ! p = Rejected e \<Longrightarrow>
   afterRegisterForm p w = (Thrown e, controller_abort w)"
  by (simp add: afterRegisterForm_def)

lemma caller_abort_rejects:
  assumes cs: "inContentScript w" and ok: "store_ok w"
    and s: "s < length (abortSignals w)" "\<not> aborted (abortSignals w ! s)"
    and l: "CancelFormListener n \<in> set (listeners (abortSignals w ! s))"
    and f: "forms w n = Some form"
  shows "step Continue (step (CallerAbort s) (AwaitRegisterForm (registration form), w)) =
           (Thrown (CancelError ''User cancelled the action''),
            controller_abort (signal_abort s w))"
proof -
  let ?w0 = "w\<lparr>abortSignals := (abortSignals w)[s := (abortSignals w ! s)\<lparr>aborted := True\<rparr>]\<rparr>"
  let ?ts = "map listener_nonce (listeners (abortSignals w ! s))"
  have sa: "signal_abort s w = fold cancel_one ?ts ?w0"
    using s cs by (simp add: signal_abort_def fold_abort_listeners_cancel)
  have ok0: "store_ok ?w0" using ok by simp
  have "n \<in> set ?ts" using l by force
  then have tg: "targets ?w0 ?ts (registration form)"
    using f by (auto simp: targets_def)
  have p: "registration form < length (promises w)" using ok f by (simp add: store_ok_def)
  have "promises (signal_abort s w) ! registration form =
          Rejected (CancelError ''User cancelled the action'')"
    unfolding sa by (simp add: promises_fold_cancel_one[OF ok0] tg)
  moreover have "registration form < length (promises (signal_abort s w))"
    unfolding sa using p by simp
  ultimately show ?thesis by (simp add: afterRegisterForm_rejected)
qed

lemma controller_abort_aborted:
  "controller w = Some c \<Longrightarrow> c_aborted c \<Longrightarrow> controller_abort w = w"
  by (simp add: controller_abort_def)

lemma panel_hiding_rejects:
  assumes cs: "inContentScript w" and ok: "store_ok w"
    and c: "controller w = Some c" "\<not> c_aborted c" "c_listeners c = [HideAndCancelListener n]"
    and pl: "panelHidingListeners w \<noteq> []"
    and f: "forms w n = Some form"
  shows "step Continue (step PanelHiding (AwaitRegisterForm (registration form), w)) =
           (Thrown (CancelError ''User cancelled the action''), panel_hiding w)"
proof -
  let ?w0 = "emit (HideSidebarForm n)
               (emit ControllerAbortEvent
                  (w\<lparr>controller := Some (c\<lparr>c_aborted := True\<rparr>), panelHidingListeners := []\<rparr>))"
  have cs0: "inContentScript ?w0" using cs by (simp add: inContentScript_def)
  have ph: "panel_hiding w = cancel_one n ?w0"
    using c pl by (simp add: panel_hiding_eq controller_abort_def cancelForm_snd[OF cs0])
  have f0: "forms ?w0 n = Some form" using f by (simp add: emit_def)
  have p0: "promises ?w0 = promises w" by (simp add: emit_def)
  have p: "registration form < length (promises w)"
    "promises w ! registration form = Pending"
    using ok f by (simp_all add: store_ok_def)
  have "promises (panel_hiding w) ! registration form =
          Rejected (CancelError ''User cancelled the action'')"
    unfolding ph using p by (simp add: promises_cancel_one f0 p0 settle_nth_pending)
  moreover have "registration form < length (promises (panel_hiding w))"
    unfolding ph using p by (simp add: p0)
  moreover have "controller_abort (panel_hiding w) = panel_hiding w"
    using pl by (simp add: panel_hiding_eq controller_abort_idem)
  ultimately show ?thesis by (simp add: afterRegisterForm_rejected)
qed

subsection \<open>The invariants hold throughout\<close>

text \<open>
  The store and the calls are in order when the module is loaded, and stay so through
  every operation of the protocol and through every event around a call of
  \<^verbatim>\<open>transform\<close>.
\<close>

lemma reachable_ops_ok:
  "inContentScript (run_ops ops contentScript) \<and> store_ok (run_ops ops contentScript) \<and>
   calls_ok (run_ops ops contentScript)"
proof -
  have "inContentScript (run_ops ops w) = inContentScript w" for w
    unfolding run_ops_def by (induction ops arbitrary: w) simp_all
  then show ?thesis
    by (simp add: inCS_contentScript store_ok_run_ops[OF store_ok_contentScript]
          calls_ok_run_ops[OF store_ok_contentScript calls_ok_contentScript])
qed

lemma ok_eq:
  "ok w \<Longrightarrow> forms w' = forms w \<Longrightarrow> promises w' = promises w \<Longrightarrow> trace w' = trace w \<Longrightarrow>
   ok w'"
  by (simp add: ok_def store_ok_def calls_ok_def)

lemma ok_emit: "(\<And>p. \<not> settles p e) \<Longrightarrow> ok w \<Longrightarrow> ok (emit e w)"
  by (simp add: ok_def store_ok_def calls_ok_def emit_def)

lemma ok_apply_op: "ok w \<Longrightarrow> ok (apply_op c w)"
  by (simp add: ok_def store_ok_apply_op calls_ok_apply_op)

lemma ok_cancelForm: "ok w \<Longrightarrow> ok (snd (cancelForm ts w))"
  using ok_apply_op[of w "CancelForm ts"] by simp

lemma ok_registerForm: "ok w \<Longrightarrow> ok (snd (registerForm t d w))"
  using ok_apply_op[of w "RegisterForm t d"] by simp

lemma store_ok_append:
  assumes "store_ok w" "forms w' = forms w" "promises w' = promises w @ [s]"
  shows "store_ok w'"
  unfolding store_ok_def
proof (intro conjI allI impI)
  fix t f assume "forms w' t = Some f"
  then have "registration f < length (promises w) \<and> promises w ! registration f = Pending"
    using assms(1,2) by (simp add: store_ok_def)
  then show "registration f < length (promises w')" "promises w' ! registration f = Pending"
    by (simp_all add: assms(3) nth_append)
next
  fix t t' f f'
  assume "forms w' t = Some f" "forms w' t' = Some f'" "registration f = registration f'"
  then show "t = t'" using assms(1,2) unfolding store_ok_def by metis
qed

lemma calls_ok_append:
  assumes "calls_ok w" "trace w' = trace w" "promises w' = promises w @ [s]"
  shows "calls_ok w'"
  unfolding calls_ok_def
proof (intro conjI allI impI)
  fix p
  show "settle_calls p (trace w') \<le> 1" using assms(1,2) by (simp add: calls_ok_def)
  assume "settle_calls p (trace w') = 1"
  then have "p < length (promises w) \<and> promises w ! p \<noteq> Pending"
    using assms(1,2) by (simp add: calls_ok_def)
  then show "p < length (promises w')" "promises w' ! p \<noteq> Pending"
    by (simp_all add: assms(3) nth_append)
qed

lemma ok_awaitRegisterForm: "ok w \<Longrightarrow> ok (snd (awaitRegisterForm n d w))"
proof (cases "inContentScript w")
  case True
  assume "ok w"
  then show ?thesis by (simp add: awaitRegisterForm_inCS[OF True] ok_registerForm)
next
  case False
  then obtain e where e: "expectContext w ''contentScript'' = Some e"
    by (auto simp: inContentScript_def)
  assume o: "ok w"
  have "store_ok (w\<lparr>promises := promises w @ [Rejected e]\<rparr>)"
    by (rule store_ok_append[of w]) (use o in \<open>simp_all add: ok_def\<close>)
  moreover have "calls_ok (w\<lparr>promises := promises w @ [Rejected e]\<rparr>)"
    by (rule calls_ok_append[of w]) (use o in \<open>simp_all add: ok_def\<close>)
  ultimately show ?thesis by (simp add: ok_def awaitRegisterForm_def registerForm_def e)
qed

lemma ok_fold_abort_listeners: "ok w \<Longrightarrow> ok (fold run_abort_listener ls w)"
proof (induction ls arbitrary: w)
  case Nil
  then show ?case by simp
next
  case (Cons l ls)
  then show ?case by (cases l) (simp add: ok_cancelForm)
qed

lemma ok_signal_abort: "ok w \<Longrightarrow> ok (signal_abort s w)"
proof -
  assume o: "ok w"
  have "ok (w\<lparr>abortSignals := ss\<rparr>)" for ss
    by (rule ok_eq[OF o]) simp_all
  then show ?thesis by (simp add: signal_abort_def o ok_fold_abort_listeners)
qed

lemma ok_fold_controller_listeners: "ok w \<Longrightarrow> ok (fold run_controller_listener ls w)"
proof (induction ls arbitrary: w)
  case Nil
  then show ?case by simp
next
  case (Cons l ls)
  then show ?case by (cases l) (simp add: ok_cancelForm ok_emit)
qed

lemma ok_controller_abort: "ok w \<Longrightarrow> ok (controller_abort w)"
proof -
  assume o: "ok w"
  have "ok (w\<lparr>controller := c, panelHidingListeners := pl\<rparr>)" for c pl
    by (rule ok_eq[OF o]) simp_all
  then have "ok (emit ControllerAbortEvent (w\<lparr>controller := c, panelHidingListeners := pl\<rparr>))"
    for c pl
    by (intro ok_emit) simp_all
  then show ?thesis
    by (simp add: controller_abort_def o ok_fold_controller_listeners split: option.splits)
qed

lemma ok_panel_hiding: "ok w \<Longrightarrow> ok (panel_hiding w)"
  by (simp add: panel_hiding_eq ok_controller_abort)

lemma ok_afterCreateFrameSource:
  "ok w \<Longrightarrow> ok (snd (afterCreateFrameSource arg opts n target w))"
proof -
  assume o: "ok w"
  let ?w2 = "(addAbortListener (abortSignal opts) (CancelFormListener n) w)
               \<lparr>controller := Some \<lparr>c_aborted = False, c_listeners = []\<rparr>\<rparr>"
  have o2: "ok ?w2"
    by (rule ok_eq[OF o]) (simp_all add: addAbortListener_def split: option.splits)
  have "ok (emit (ShowModal u) ?w2)" for u by (rule ok_emit[OF _ o2]) simp
  then show ?thesis
    using o2 by (simp add: afterCreateFrameSource_def Let_def ok_awaitRegisterForm)
qed

lemma ok_afterEnsureSidebar: "ok w \<Longrightarrow> ok (snd (afterEnsureSidebar opts n d w))"
proof -
  assume o: "ok w"
  let ?w1 = "emit (ShowSidebarForm (extensionId opts) n d) w"
  let ?w3 = "addControllerListener (HideAndCancelListener n)
               (addPanelHidingListener AbortControllerListener ?w1)"
  have "ok ?w1" by (rule ok_emit[OF _ o]) simp
  then have "ok ?w3"
    by (rule ok_eq)
       (simp_all add: addControllerListener_def addPanelHidingListener_def split: option.splits)
  then show ?thesis
    by (simp add: afterEnsureSidebar_def Let_def ok_awaitRegisterForm)
qed

lemma ok_afterRegisterForm: "ok w \<Longrightarrow> ok (snd (afterRegisterForm p w))"
  by (simp add: afterRegisterForm_def ok_controller_abort split: settlement.splits)

lemma ok_step: "ok (snd cfg) \<Longrightarrow> ok (snd (step e cfg))"
proof -
  assume o: "ok (snd cfg)"
  obtain f w where cfg: "cfg = (f, w)" by (cases cfg)
  with o have ow: "ok w" by simp
  show ?thesis
  proof (cases e)
    case (GotThisFrame r)
    show ?thesis
    proof (cases f)
      case (AwaitCreateFrameSource arg opts n)
      with ow cfg GotThisFrame show ?thesis
        by (cases r) (simp_all add: ok_afterCreateFrameSource)
    qed (use ow cfg GotThisFrame in simp_all)
  next
    case (SidebarEnsured r)
    show ?thesis
    proof (cases f)
      case (AwaitEnsureSidebar opts n d)
      with ow cfg SidebarEnsured show ?thesis
        by (cases r) (simp_all add: ok_afterEnsureSidebar)
    qed (use ow cfg SidebarEnsured in simp_all)
  next
    case Continue
    show ?thesis
    proof (cases f)
      case (AwaitRegisterForm p)
      with ow cfg Continue show ?thesis by (simp add: ok_afterRegisterForm)
    qed (use ow cfg Continue in simp_all)
  next
    case (CallerAbort s)
    with ow cfg show ?thesis by (simp add: ok_signal_abort)
  next
    case PanelHiding
    with ow cfg show ?thesis by (simp add: ok_panel_hiding)
  next
    case (Call c)
    with ow cfg show ?thesis by (simp add: ok_apply_op)
  qed
qed

lemma ok_run: "ok (snd cfg) \<Longrightarrow> ok (snd (run es cfg))"
  unfolding run_def by (induction es arbitrary: cfg) (simp_all add: ok_step)

lemma ok_transform_run:
  "store_ok w \<Longrightarrow> calls_ok w \<Longrightarrow>
   store_ok (snd (run es (transform arg opts n w))) \<and>
   calls_ok (snd (run es (transform arg opts n w)))"
proof -
  assume "store_ok w" "calls_ok w"
  then have "ok (snd (transform arg opts n w))"
    by (simp add: ok_def transform_def split: option.splits)
  then have "ok (snd (run es (transform arg opts n w)))" by (rule ok_run)
  then show ?thesis by (simp add: ok_def)
qed

end
